theory Spec2Isabelle
  imports Complex_Main "HOL-Library.Multiset"
begin

section \<open>JavaScript values used by the ride list\<close>

text \<open>
  The ride list (\<^verbatim>\<open>RideList\<close>, src/unnamed/part_002) and the service worker
  (src/unnamed/part_000) are JavaScript. Everything they do beyond returning a value is
  made explicit here: a thrown exception is the \<open>Inl\<close> branch of a sum, the built-ins
  of the runtime whose result depends on the engine or on the machine (date parsing, the
  local time zone, \<^verbatim>\<open>Number\<close>, \<^verbatim>\<open>JSON\<close>, the storage quota) are the fields of
  a \<open>host\<close> record, and the clock reading \<^verbatim>\<open>Date.now()\<close> is an argument.
\<close>

datatype error = TypeError | SyntaxError | QuotaExceededError

text \<open>
  A JavaScript number: \<open>NaN\<close>, the two infinities, or a finite value. Finite values
  are rationals: every number the code computes is an integer number of milliseconds, a
  difference of two of them, or such a difference divided by 60000. Integers below
  \<open>2^53\<close> in magnitude and their differences are exact in binary floating point, which
  covers every date within 140000 years of the epoch, and a comparison of such a
  quotient with 30 gives the same answer there as in exact arithmetic. Negative zero is
  not distinguished from zero (no comparison tells them apart).
\<close>

datatype number = NaN | NegInf | PosInf | Fin rat

fun numSub :: "number \<Rightarrow> number \<Rightarrow> number" where
  "numSub NaN _ = NaN"
| "numSub _ NaN = NaN"
| "numSub PosInf PosInf = NaN"
| "numSub NegInf NegInf = NaN"
| "numSub PosInf _ = PosInf"
| "numSub NegInf _ = NegInf"
| "numSub (Fin a) PosInf = NegInf"
| "numSub (Fin a) NegInf = PosInf"
| "numSub (Fin a) (Fin b) = Fin (a - b)"

fun numAbs :: "number \<Rightarrow> number" where
  "numAbs NaN = NaN"
| "numAbs NegInf = PosInf"
| "numAbs PosInf = PosInf"
| "numAbs (Fin a) = Fin \<bar>a\<bar>"

fun numDiv :: "number \<Rightarrow> number \<Rightarrow> number" where
  "numDiv NaN _ = NaN"
| "numDiv _ NaN = NaN"
| "numDiv (Fin a) (Fin b) =
     (if b = 0 then (if a = 0 then NaN else if 0 < a then PosInf else NegInf)
      else Fin (a / b))"
| "numDiv (Fin a) _ = Fin 0"
| "numDiv PosInf (Fin b) = (if b < 0 then NegInf else PosInf)"
| "numDiv NegInf (Fin b) = (if b < 0 then PosInf else NegInf)"
| "numDiv _ _ = NaN"

text \<open>\<^verbatim>\<open>x <= y\<close>, \<^verbatim>\<open>x < y\<close> and \<^verbatim>\<open>x === y\<close> on numbers: false as soon as one side is \<open>NaN\<close>.\<close>

fun numLe :: "number \<Rightarrow> number \<Rightarrow> bool" where
  "numLe NaN _ = False"
| "numLe _ NaN = False"
| "numLe NegInf _ = True"
| "numLe _ PosInf = True"
| "numLe (Fin a) (Fin b) = (a \<le> b)"
| "numLe _ _ = False"

fun numLess :: "number \<Rightarrow> number \<Rightarrow> bool" where
  "numLess NaN _ = False"
| "numLess _ NaN = False"
| "numLess (Fin a) (Fin b) = (a < b)"
| "numLess NegInf NegInf = False"
| "numLess PosInf _ = False"
| "numLess NegInf _ = True"
| "numLess (Fin a) PosInf = True"
| "numLess (Fin a) NegInf = False"

fun numStrictEq :: "number \<Rightarrow> number \<Rightarrow> bool" where
  "numStrictEq NaN _ = False"
| "numStrictEq _ NaN = False"
| "numStrictEq x y = (x = y)"

text \<open>
  A JSON value, as \<^verbatim>\<open>JSON.parse\<close> returns it and \<^verbatim>\<open>JSON.stringify\<close> takes it.
\<close>

datatype json =
    JNull
  | JBool bool
  | JNum rat
  | JStr string
  | JArr "json list"
  | JObj "(string \<times> json) list"

text \<open>The truthiness of a value in a condition (\<^verbatim>\<open>if (v)\<close>, \<^verbatim>\<open>a && b\<close>).\<close>

fun truthy :: "json \<Rightarrow> bool" where
  "truthy JNull = False"
| "truthy (JBool b) = b"
| "truthy (JNum n) = (n \<noteq> 0)"
| "truthy (JStr s) = (s \<noteq> [])"
| "truthy (JArr _) = True"
| "truthy (JObj _) = True"

type_synonym storage = "string \<rightharpoonup> string"

text \<open>
  The host: the built-ins the code calls whose result is fixed by the engine or the
  machine and not by this repository.
  \<^item> \<open>dateParse s\<close>: the time value (milliseconds since the epoch) of \<^verbatim>\<open>new Date(s)\<close>
    for a string \<open>s\<close>, \<open>None\<close> for an Invalid Date;
  \<^item> \<open>localTZA t\<close>: the offset of local time from UTC at time value \<open>t\<close>, in milliseconds;
  \<^item> \<open>toNumber s\<close>: \<^verbatim>\<open>Number(s)\<close> for a string;
  \<^item> \<open>numberToString n\<close>: \<^verbatim>\<open>n.toString()\<close> for an integer \<open>n\<close>;
  \<^item> \<open>jsonParse s\<close>: \<^verbatim>\<open>JSON.parse(s)\<close>, \<open>None\<close> when it throws a SyntaxError;
  \<^item> \<open>jsonStringify v\<close>: \<^verbatim>\<open>JSON.stringify(v)\<close>;
  \<^item> \<open>quotaAllows st k v\<close>: whether \<^verbatim>\<open>localStorage.setItem(k, v)\<close> succeeds in
    storage state \<open>st\<close> (it throws a QuotaExceededError otherwise).
\<close>

record host =
  dateParse :: "string \<Rightarrow> int option"
  localTZA :: "int \<Rightarrow> int"
  toNumber :: "string \<Rightarrow> number"
  numberToString :: "int \<Rightarrow> string"
  jsonParse :: "string \<Rightarrow> json option"
  jsonStringify :: "json \<Rightarrow> string"
  quotaAllows :: "storage \<Rightarrow> string \<Rightarrow> string \<Rightarrow> bool"

section \<open>Rides and dates\<close>

text \<open>
  A field of a ride row as the code reads it: absent (\<^verbatim>\<open>undefined\<close>), \<^verbatim>\<open>null\<close>, or a
  string. The \<^verbatim>\<open>from\<close>, \<^verbatim>\<open>to\<close> and \<^verbatim>\<open>time\<close> columns hold text and timestamps, which
  the backend returns as strings or \<^verbatim>\<open>null\<close>.
\<close>

datatype field = Absent | Null | Str string

record ride =
  ride_id :: nat
  ride_from :: field
  ride_to :: field
  ride_time :: field

text \<open>
  \<^verbatim>\<open>new Date(v)\<close>: a Date object is its time value, \<open>None\<close> for an Invalid Date.
  \<^verbatim>\<open>new Date(undefined)\<close> is invalid, \<^verbatim>\<open>new Date(null)\<close> is the epoch (\<^verbatim>\<open>null\<close> converts
  to the number 0), a string is parsed.
\<close>

definition newDate :: "host \<Rightarrow> field \<Rightarrow> int option" where
  "newDate h v = (case v of Absent \<Rightarrow> None | Null \<Rightarrow> Some 0 | Str s \<Rightarrow> dateParse h s)"

text \<open>The number a Date converts to in arithmetic (\<^verbatim>\<open>t1 - t2\<close>).\<close>

definition valueOf :: "int option \<Rightarrow> number" where
  "valueOf d = (case d of None \<Rightarrow> NaN | Some t \<Rightarrow> Fin (of_int t))"

text \<open>
  The calendar of ECMAScript: the day number of a time value, and the year, month
  (0 to 11) and day of the month of a day number in the proleptic Gregorian calendar,
  computed era by era (an era is 400 years, 146097 days, starting on 1 March).
\<close>

definition msPerDay :: int where
  "msPerDay = 86400000"

definition Day :: "int \<Rightarrow> int" where
  "Day t = t div msPerDay"

definition LocalTime :: "host \<Rightarrow> int \<Rightarrow> int" where
  "LocalTime h t = t + localTZA h t"

definition civil :: "int \<Rightarrow> int \<times> int \<times> int" where
  "civil days =
     (let z = days + 719468;
          era = z div 146097;
          doe = z - era * 146097;
          yoe = (doe - doe div 1460 + doe div 36524 - doe div 146096) div 365;
          doy = doe - (365 * yoe + yoe div 4 - yoe div 100);
          mp = (5 * doy + 2) div 153;
          d = doy - (153 * mp + 2) div 5 + 1;
          m = (if mp < 10 then mp + 3 else mp - 9);
          y = yoe + era * 400 + (if m \<le> 2 then 1 else 0)
      in (y, m - 1, d))"

definition YearFromTime :: "int \<Rightarrow> int" where
  "YearFromTime t = fst (civil (Day t))"

definition MonthFromTime :: "int \<Rightarrow> int" where
  "MonthFromTime t = fst (snd (civil (Day t)))"

definition DateFromTime :: "int \<Rightarrow> int" where
  "DateFromTime t = snd (snd (civil (Day t)))"

text \<open>\<^verbatim>\<open>getFullYear()\<close>, \<^verbatim>\<open>getMonth()\<close>, \<^verbatim>\<open>getDate()\<close>: local time, \<open>NaN\<close> on an Invalid Date.\<close>

definition getFullYear :: "host \<Rightarrow> int option \<Rightarrow> number" where
  "getFullYear h d =
     (case d of None \<Rightarrow> NaN | Some t \<Rightarrow> Fin (of_int (YearFromTime (LocalTime h t))))"

definition getMonth :: "host \<Rightarrow> int option \<Rightarrow> number" where
  "getMonth h d =
     (case d of None \<Rightarrow> NaN | Some t \<Rightarrow> Fin (of_int (MonthFromTime (LocalTime h t))))"

definition getDate :: "host \<Rightarrow> int option \<Rightarrow> number" where
  "getDate h d =
     (case d of None \<Rightarrow> NaN | Some t \<Rightarrow> Fin (of_int (DateFromTime (LocalTime h t))))"

subsection \<open>isTimeWithinRange and isSameDay\<close>

definition isTimeWithinRange :: "host \<Rightarrow> field \<Rightarrow> field \<Rightarrow> rat \<Rightarrow> bool" where
  "isTimeWithinRange h time1 time2 rangeInMinutes =
     (let t1 = newDate h time1;
          t2 = newDate h time2;
          diffInMinutes = numDiv (numAbs (numSub (valueOf t1) (valueOf t2))) (Fin (1000 * 60))
      in numLe diffInMinutes (Fin rangeInMinutes))"

definition isSameDay :: "host \<Rightarrow> field \<Rightarrow> field \<Rightarrow> bool" where
  "isSameDay h date1 date2 =
     (let d1 = newDate h date1;
          d2 = newDate h date2
      in numStrictEq (getFullYear h d1) (getFullYear h d2) \<and>
         numStrictEq (getMonth h d1) (getMonth h d2) \<and>
         numStrictEq (getDate h d1) (getDate h d2))"

subsection \<open>The match filter\<close>

text \<open>
  \<^verbatim>\<open>v.toLowerCase()\<close>: a TypeError when \<open>v\<close> is \<^verbatim>\<open>undefined\<close> or \<^verbatim>\<open>null\<close> (no property can
  be read from them). Strings are byte strings here and the letters A to Z are the ones
  lowered, which is what the method does on the ASCII labels of the location list.
\<close>

definition lowerChar :: "char \<Rightarrow> char" where
  "lowerChar c =
     (let n = (of_char c :: nat) in if 65 \<le> n \<and> n \<le> 90 then char_of (n + 32) else c)"

definition toLowerCase :: "field \<Rightarrow> error + string" where
  "toLowerCase v = (case v of Str s \<Rightarrow> Inr (map lowerChar s) | _ \<Rightarrow> Inl TypeError)"

text \<open>
  The callback of \<^verbatim>\<open>some\<close> (part_002, lines 145 to 156). The operands are evaluated left
  to right and \<^verbatim>\<open>&&\<close> does not evaluate its right side when the left is false, so the
  \<^verbatim>\<open>to\<close> fields are read only when the \<^verbatim>\<open>from\<close> fields agree.
\<close>

definition routeMatches :: "ride \<Rightarrow> ride \<Rightarrow> error + bool" where
  "routeMatches myRide ride =
     (case toLowerCase (ride_from myRide) of Inl e \<Rightarrow> Inl e | Inr a \<Rightarrow>
     (case toLowerCase (ride_from ride) of Inl e \<Rightarrow> Inl e | Inr b \<Rightarrow>
      if a \<noteq> b then Inr False else
     (case toLowerCase (ride_to myRide) of Inl e \<Rightarrow> Inl e | Inr c \<Rightarrow>
     (case toLowerCase (ride_to ride) of Inl e \<Rightarrow> Inl e | Inr d \<Rightarrow>
      Inr (c = d)))))"

definition rideMatches :: "host \<Rightarrow> ride \<Rightarrow> ride \<Rightarrow> error + bool" where
  "rideMatches h ride myRide =
     (case routeMatches myRide ride of Inl e \<Rightarrow> Inl e | Inr route \<Rightarrow>
      let sameDay = isSameDay h (ride_time myRide) (ride_time ride);
          timeMatches = isTimeWithinRange h (ride_time myRide) (ride_time ride) 30
      in Inr (route \<and> sameDay \<and> timeMatches))"

text \<open>
  \<^verbatim>\<open>Array.prototype.some\<close> and \<^verbatim>\<open>Array.prototype.filter\<close> with a callback that may throw:
  the elements are visited in order, \<^verbatim>\<open>some\<close> stops at the first true answer, and an
  exception ends the whole call.
\<close>

fun array_some :: "('a \<Rightarrow> error + bool) \<Rightarrow> 'a list \<Rightarrow> error + bool" where
  "array_some p [] = Inr False"
| "array_some p (x # xs) =
     (case p x of Inl e \<Rightarrow> Inl e | Inr b \<Rightarrow> if b then Inr True else array_some p xs)"

fun array_filter :: "('a \<Rightarrow> error + bool) \<Rightarrow> 'a list \<Rightarrow> error + 'a list" where
  "array_filter p [] = Inr []"
| "array_filter p (x # xs) =
     (case p x of Inl e \<Rightarrow> Inl e | Inr b \<Rightarrow>
     (case array_filter p xs of Inl e \<Rightarrow> Inl e | Inr ys \<Rightarrow> Inr (if b then x # ys else ys)))"

text \<open>\<^verbatim>\<open>(xs || [])\<close>: the backend's \<^verbatim>\<open>data\<close> is an array or \<^verbatim>\<open>null\<close> (\<open>None\<close>).\<close>

definition orEmpty :: "'a list option \<Rightarrow> 'a list" where
  "orEmpty xs = (case xs of None \<Rightarrow> [] | Some ys \<Rightarrow> ys)"

definition matchedRides :: "host \<Rightarrow> ride list option \<Rightarrow> ride list option \<Rightarrow> error + ride list" where
  "matchedRides h rides myRides =
     array_filter (\<lambda>ride. array_some (\<lambda>myRide. rideMatches h ride myRide) (orEmpty myRides))
       (orEmpty rides)"

subsection \<open>Sorting by proximity to now\<close>

text \<open>
  \<^verbatim>\<open>Array.prototype.sort\<close> with a comparator: the language fixes the result (a stable
  sort) and leaves the algorithm to the engine. The model is the stable insertion sort:
  an element moves behind another one only when the comparator, called on the two,
  returns a number greater than zero (\<open>NaN\<close> counts as zero).
\<close>

fun sort_insert :: "('a \<Rightarrow> 'a \<Rightarrow> number) \<Rightarrow> 'a \<Rightarrow> 'a list \<Rightarrow> 'a list" where
  "sort_insert cmp x [] = [x]"
| "sort_insert cmp x (y # ys) =
     (if numLess (Fin 0) (cmp x y) then y # sort_insert cmp x ys else x # y # ys)"

fun array_sort :: "('a \<Rightarrow> 'a \<Rightarrow> number) \<Rightarrow> 'a list \<Rightarrow> 'a list" where
  "array_sort cmp [] = []"
| "array_sort cmp (x # xs) = sort_insert cmp x (array_sort cmp xs)"

text \<open>
  \<^verbatim>\<open>Math.abs(new Date(a.time) - new Date())\<close>, where \<open>now\<close> is the reading of the clock.
  The comparator reads the clock twice, once for each ride. The sort is modelled with
  a clock that shows the same time at every reading made during one sort.
\<close>

definition timeProximity :: "host \<Rightarrow> int \<Rightarrow> ride \<Rightarrow> number" where
  "timeProximity h now a =
     numAbs (numSub (valueOf (newDate h (ride_time a))) (valueOf (Some now)))"

definition compareRides :: "host \<Rightarrow> int \<Rightarrow> int \<Rightarrow> ride \<Rightarrow> ride \<Rightarrow> number" where
  "compareRides h now1 now2 a b = numSub (timeProximity h now1 a) (timeProximity h now2 b)"

definition sortedRides :: "host \<Rightarrow> int \<Rightarrow> ride list \<Rightarrow> ride list" where
  "sortedRides h now matched = array_sort (compareRides h now now) matched"

section \<open>The data cache in local storage\<close>

definition CACHE_KEYS_RIDES :: string where
  "CACHE_KEYS_RIDES = ''cached_rides''"

definition CACHE_KEYS_LAST_FETCH :: string where
  "CACHE_KEYS_LAST_FETCH = ''last_fetch_time''"

definition CACHE_KEYS_PROFILE :: string where
  "CACHE_KEYS_PROFILE = ''cached_profile''"

definition CACHE_EXPIRATION :: rat where
  "CACHE_EXPIRATION = 15 * 60 * 1000"

definition getItem :: "storage \<Rightarrow> string \<Rightarrow> string option" where
  "getItem st k = st k"

definition setItem :: "host \<Rightarrow> storage \<Rightarrow> string \<Rightarrow> string \<Rightarrow> error + storage" where
  "setItem h st k v = (if quotaAllows h st k v then Inr (st(k \<mapsto> v)) else Inl QuotaExceededError)"

text \<open>
  \<^verbatim>\<open>isCacheValid\<close> returns \<^verbatim>\<open>lastFetchTime && Date.now() - Number(lastFetchTime) < CACHE_EXPIRATION\<close>
  and its only caller tests the result in an \<^verbatim>\<open>if\<close>; the model returns the truthiness
  of that value. \<^verbatim>\<open>getItem\<close> gives \<^verbatim>\<open>null\<close> for a missing key, and \<^verbatim>\<open>null\<close> and the
  empty string are the falsy values it can give.
\<close>

definition isCacheValid :: "host \<Rightarrow> storage \<Rightarrow> int \<Rightarrow> bool" where
  "isCacheValid h st now =
     (case getItem st CACHE_KEYS_LAST_FETCH of
        None \<Rightarrow> False
      | Some lastFetchTime \<Rightarrow>
          lastFetchTime \<noteq> [] \<and>
          numLess (numSub (Fin (of_int now)) (toNumber h lastFetchTime)) (Fin CACHE_EXPIRATION))"

text \<open>
  \<^verbatim>\<open>JSON.parse(localStorage.getItem(k))\<close>: a missing key gives \<^verbatim>\<open>null\<close>, which
  \<^verbatim>\<open>JSON.parse\<close> converts to the text \<^verbatim>\<open>null\<close> and parses to \<^verbatim>\<open>null\<close> without throwing.
\<close>

definition jsonParseItem :: "host \<Rightarrow> string option \<Rightarrow> error + json" where
  "jsonParseItem h item =
     (case item of
        None \<Rightarrow> Inr JNull
      | Some s \<Rightarrow> (case jsonParse h s of None \<Rightarrow> Inl SyntaxError | Some v \<Rightarrow> Inr v))"

text \<open>The result of \<^verbatim>\<open>getCachedData\<close> is the pair (rides, profile).\<close>

definition getCachedData :: "host \<Rightarrow> storage \<Rightarrow> json \<times> json" where
  "getCachedData h st =
     (case jsonParseItem h (getItem st CACHE_KEYS_RIDES) of
        Inl e \<Rightarrow> (JNull, JNull)
      | Inr cachedRides \<Rightarrow>
         (case jsonParseItem h (getItem st CACHE_KEYS_PROFILE) of
            Inl e \<Rightarrow> (JNull, JNull)
          | Inr cachedProfile \<Rightarrow> (cachedRides, cachedProfile)))"

text \<open>
  \<^verbatim>\<open>setCacheData\<close>: three writes in a \<^verbatim>\<open>try\<close> block; the first one that throws ends
  the block, and the handler only logs. The result is the storage afterwards.
\<close>

definition setCacheData :: "host \<Rightarrow> storage \<Rightarrow> int \<Rightarrow> json \<Rightarrow> json \<Rightarrow> storage" where
  "setCacheData h st now rides profile =
     (case setItem h st CACHE_KEYS_RIDES (jsonStringify h rides) of
        Inl e \<Rightarrow> st
      | Inr st1 \<Rightarrow>
         (case setItem h st1 CACHE_KEYS_PROFILE (jsonStringify h profile) of
            Inl e \<Rightarrow> st1
          | Inr st2 \<Rightarrow>
             (case setItem h st2 CACHE_KEYS_LAST_FETCH (numberToString h now) of
                Inl e \<Rightarrow> st2
              | Inr st3 \<Rightarrow> st3)))"

text \<open>
  The head of \<^verbatim>\<open>fetchData\<close> (part_002, lines 91 to 99): either the cached rides are
  shown and the function returns, or it goes on to the backend.
\<close>

datatype refresh = ServeCached json | FetchFromNetwork

definition checkCacheFirst :: "host \<Rightarrow> storage \<Rightarrow> int \<Rightarrow> refresh" where
  "checkCacheFirst h st now =
     (if isCacheValid h st now then
        (case getCachedData h st of (cachedRides, cachedProfile) \<Rightarrow>
           if truthy cachedRides \<and> truthy cachedProfile then ServeCached cachedRides
           else FetchFromNetwork)
      else FetchFromNetwork)"

text \<open>
  The end of \<^verbatim>\<open>fetchData\<close> (part_002, lines 142 to 177), once the backend has answered
  with the profile, the rides of the user and the candidate rides. The match, the sort,
  the cache write and \<^verbatim>\<open>setRides\<close> run inside the \<^verbatim>\<open>try\<close> block. An exception thrown
  by the match is caught: the handler reads the cache and shows the cached rides when
  they are truthy, and leaves the list as it is otherwise. \<open>now\<close> is the clock reading
  during the sort and \<open>later\<close> the one at the cache write. The result is what is shown
  and the storage afterwards.
\<close>

datatype shown = ShowMatches "ride list" | ShowCached json | ShowNothingNew

text \<open>A ride as the JSON value that \<^verbatim>\<open>JSON.stringify\<close> sees: absent fields are left out.\<close>

definition fieldToJson :: "string \<Rightarrow> field \<Rightarrow> (string \<times> json) list" where
  "fieldToJson k v = (case v of Absent \<Rightarrow> [] | Null \<Rightarrow> [(k, JNull)] | Str s \<Rightarrow> [(k, JStr s)])"

definition rideToJson :: "ride \<Rightarrow> json" where
  "rideToJson r =
     JObj ([(''id'', JNum (of_nat (ride_id r)))] @ fieldToJson ''from'' (ride_from r) @
           fieldToJson ''to'' (ride_to r) @ fieldToJson ''time'' (ride_time r))"

definition fetchData_matches ::
  "host \<Rightarrow> storage \<Rightarrow> int \<Rightarrow> int \<Rightarrow> json \<Rightarrow> ride list option \<Rightarrow> ride list option
    \<Rightarrow> shown \<times> storage" where
  "fetchData_matches h st now later profile rides myRides =
     (case matchedRides h rides myRides of
        Inl e \<Rightarrow>
          (case getCachedData h st of (cachedRides, cachedProfile) \<Rightarrow>
             (if truthy cachedRides then ShowCached cachedRides else ShowNothingNew, st))
      | Inr matched \<Rightarrow>
          (let sorted = sortedRides h now matched
           in (ShowMatches sorted,
               setCacheData h st later (JArr (map rideToJson sorted)) profile)))"

section \<open>The service worker\<close>

text \<open>
  A request is its URL, method and mode; a response is its status and body. A
  \<^verbatim>\<open>Response\<close> object has a body that can be read once: the objects live in a heap
  (a list, the reference of an object is its index) and carry a flag that says whether
  the body has been read. The cache storage is the list of named caches in creation
  order, each one a list of entries keyed by request URL.
\<close>

record request =
  req_url :: string
  req_method :: string
  req_mode :: string

record response =
  resp_status :: nat
  resp_body :: string

record responseObject =
  content :: response
  bodyUsed :: bool

record worker =
  cacheStorage :: "(string \<times> (string \<times> response) list) list"
  objects :: "responseObject list"

datatype outcome = NotIntercepted | RespondWith "nat option"

definition CACHE_NAME :: string where
  "CACHE_NAME = ''ride-partner-v2''"

fun startsWith :: "string \<Rightarrow> string \<Rightarrow> bool" where
  "startsWith s [] = True"
| "startsWith [] (p # ps) = False"
| "startsWith (c # cs) (p # ps) = (c = p \<and> startsWith cs ps)"

fun includes_str :: "string \<Rightarrow> string \<Rightarrow> bool" where
  "includes_str [] p = (p = [])"
| "includes_str (c # cs) p = (startsWith (c # cs) p \<or> includes_str cs p)"

text \<open>A new \<^verbatim>\<open>Response\<close> object with an unread body.\<close>

definition alloc :: "response \<Rightarrow> worker \<Rightarrow> nat \<times> worker" where
  "alloc r w =
     (length (objects w), w\<lparr>objects := objects w @ [\<lparr>content = r, bodyUsed = False\<rparr>]\<rparr>)"

text \<open>\<^verbatim>\<open>response.clone()\<close>: a second object with the same content; a TypeError when the body has been read.\<close>

definition clone :: "nat \<Rightarrow> worker \<Rightarrow> error + nat \<times> worker" where
  "clone ref w =
     (if ref < length (objects w) \<and> \<not> bodyUsed (objects w ! ref)
      then Inr (alloc (content (objects w ! ref)) w)
      else Inl TypeError)"

text \<open>\<^verbatim>\<open>caches.open(name)\<close> creates the cache when there is none of that name.\<close>

definition cachesOpen :: "string \<Rightarrow> worker \<Rightarrow> worker" where
  "cachesOpen name w =
     (if map_of (cacheStorage w) name = None
      then w\<lparr>cacheStorage := cacheStorage w @ [(name, [])]\<rparr>
      else w)"

definition putEntry :: "string \<Rightarrow> response \<Rightarrow> (string \<times> response) list \<Rightarrow> (string \<times> response) list" where
  "putEntry u r entries = filter (\<lambda>e. fst e \<noteq> u) entries @ [(u, r)]"

text \<open>
  \<^verbatim>\<open>cache.put(request, response)\<close> on the cache called \<open>name\<close>: the body of the object is
  read into the cache, replacing the entry of that URL. It is rejected, and changes
  nothing, when the body has been read already or the method is not GET. The handler
  does not wait for it and does not look at its result.
\<close>

definition cachePut :: "string \<Rightarrow> request \<Rightarrow> nat \<Rightarrow> worker \<Rightarrow> worker" where
  "cachePut name req ref w =
     (if ref < length (objects w) \<and> \<not> bodyUsed (objects w ! ref) \<and> req_method req = ''GET''
      then w\<lparr>cacheStorage :=
                map (\<lambda>c. if fst c = name
                         then (fst c, putEntry (req_url req) (content (objects w ! ref)) (snd c))
                         else c)
                  (cacheStorage w),
              objects := (objects w)[ref := (objects w ! ref)\<lparr>bodyUsed := True\<rparr>]\<rparr>
      else w)"

text \<open>
  \<^verbatim>\<open>caches.match(request)\<close>: the first entry of that URL in the first cache that has one,
  as a new object; nothing for a request whose method is not GET.
\<close>

fun cacheLookup :: "(string \<times> (string \<times> response) list) list \<Rightarrow> string \<Rightarrow> response option" where
  "cacheLookup [] u = None"
| "cacheLookup (c # cs) u =
     (case map_of (snd c) u of Some r \<Rightarrow> Some r | None \<Rightarrow> cacheLookup cs u)"

definition cachesMatch :: "string \<Rightarrow> string \<Rightarrow> worker \<Rightarrow> nat option \<times> worker" where
  "cachesMatch u m w =
     (if m \<noteq> ''GET'' then (None, w)
      else (case cacheLookup (cacheStorage w) u of
              None \<Rightarrow> (None, w)
            | Some r \<Rightarrow> (case alloc r w of (ref, w') \<Rightarrow> (Some ref, w'))))"

text \<open>
  The \<^verbatim>\<open>fetch\<close> handler (part_000, lines 40 to 84). \<open>origin\<close> is \<^verbatim>\<open>self.location.origin\<close>
  and \<open>net\<close> is what the network answers to \<^verbatim>\<open>fetch(event.request)\<close>: a response, or
  \<open>None\<close> when the promise is rejected. The result is what the handler passes to
  \<^verbatim>\<open>respondWith\<close>, \<open>None\<close> for \<^verbatim>\<open>null\<close> and \<^verbatim>\<open>undefined\<close>, and the worker afterwards.
\<close>

definition cacheFallback :: "string \<Rightarrow> request \<Rightarrow> worker \<Rightarrow> outcome \<times> worker" where
  "cacheFallback origin req w =
     (case cachesMatch (req_url req) (req_method req) w of
        (Some ref, w') \<Rightarrow> (RespondWith (Some ref), w')
      | (None, w') \<Rightarrow>
          if req_mode req = ''navigate''
          then (case cachesMatch (origin @ ''/index.html'') ''GET'' w' of
                  (found, w'') \<Rightarrow> (RespondWith found, w''))
          else (RespondWith None, w'))"

definition onFetch :: "string \<Rightarrow> response option \<Rightarrow> request \<Rightarrow> worker \<Rightarrow> outcome \<times> worker" where
  "onFetch origin net req w =
     (if \<not> startsWith (req_url req) origin then (NotIntercepted, w)
      else if includes_str (req_url req) ''/api/'' then
        (case net of
           Some r \<Rightarrow> (case alloc r w of (ref, w') \<Rightarrow> (RespondWith (Some ref), w'))
         | None \<Rightarrow>
            (case cachesMatch (req_url req) (req_method req) w of
               (found, w') \<Rightarrow> (RespondWith found, w')))
      else
        (case net of
           Some r \<Rightarrow>
            (case alloc r w of (resp, w1) \<Rightarrow>
              (case clone resp w1 of
                 Inl e \<Rightarrow> cacheFallback origin req w1
               | Inr (responseToCache, w2) \<Rightarrow>
                  (let w3 = cachesOpen CACHE_NAME w2;
                       w4 = (if req_method req = ''GET'' \<and> resp_status r = 200
                             then cachePut CACHE_NAME req responseToCache w3 else w3)
                   in (RespondWith (Some resp), w4))))
         | None \<Rightarrow> cacheFallback origin req w))"

section \<open>A host for the examples\<close>

text \<open>
  The theorems below hold for every host. The examples run on this one: a machine whose
  local time is UTC, with no storage quota. Its \<open>dateParse\<close> reads the format that
  \<^verbatim>\<open>toISOString\<close> writes (\<^verbatim>\<open>YYYY-MM-DDTHH:mm:ssZ\<close>, with or without milliseconds), which
  is how \<^verbatim>\<open>PostRide\<close> stores the time of a ride, and takes any other string for an
  Invalid Date; its \<open>toNumber\<close> reads decimal integers; its \<open>jsonParse\<close> and its
  \<open>jsonStringify\<close> know the documents \<^verbatim>\<open>null\<close>, \<^verbatim>\<open>true\<close>, \<^verbatim>\<open>false\<close>, \<^verbatim>\<open>[]\<close> and
  \<^verbatim>\<open>{}\<close>. A real engine accepts more strings and prints more values than these; the
  examples use none of them.
\<close>

fun natOfDigits :: "int \<Rightarrow> string \<Rightarrow> int option" where
  "natOfDigits acc [] = Some acc"
| "natOfDigits acc (c # cs) =
     (let n = (of_char c :: int)
      in if 48 \<le> n \<and> n \<le> 57 then natOfDigits (10 * acc + (n - 48)) cs else None)"

definition daysFromCivil :: "int \<Rightarrow> int \<Rightarrow> int \<Rightarrow> int" where
  "daysFromCivil y m d =
     (let y' = (if m \<le> 2 then y - 1 else y);
          era = y' div 400;
          yoe = y' - era * 400;
          doy = (153 * (if 2 < m then m - 3 else m + 9) + 2) div 5 + d - 1;
          doe = yoe * 365 + yoe div 4 - yoe div 100 + doy
      in era * 146097 + doe - 719468)"

definition daysInMonth :: "int \<Rightarrow> int \<Rightarrow> int" where
  "daysInMonth y m =
     (if m = 2
      then (if y mod 400 = 0 then 29 else if y mod 100 = 0 then 28
            else if y mod 4 = 0 then 29 else 28)
      else if m = 4 \<or> m = 6 \<or> m = 9 \<or> m = 11 then 30 else 31)"

definition isoFields :: "string \<Rightarrow> (int \<times> int \<times> int \<times> int \<times> int \<times> int \<times> int) option" where
  "isoFields s =
     (case natOfDigits 0 (take 4 s) of None \<Rightarrow> None | Some y \<Rightarrow>
     (case natOfDigits 0 (take 2 (drop 5 s)) of None \<Rightarrow> None | Some mo \<Rightarrow>
     (case natOfDigits 0 (take 2 (drop 8 s)) of None \<Rightarrow> None | Some d \<Rightarrow>
     (case natOfDigits 0 (take 2 (drop 11 s)) of None \<Rightarrow> None | Some hh \<Rightarrow>
     (case natOfDigits 0 (take 2 (drop 14 s)) of None \<Rightarrow> None | Some mi \<Rightarrow>
     (case natOfDigits 0 (take 2 (drop 17 s)) of None \<Rightarrow> None | Some ss \<Rightarrow>
     (case natOfDigits 0 (take 3 (drop 20 s)) of None \<Rightarrow> None | Some ms \<Rightarrow>
        Some (y, mo, d, hh, mi, ss, ms))))))))"

definition isoShape :: "string \<Rightarrow> bool" where
  "isoShape s =
     ((length s = 20 \<or> (length s = 24 \<and> s ! 19 = CHR ''.'')) \<and>
      s ! 4 = CHR ''-'' \<and> s ! 7 = CHR ''-'' \<and> s ! 10 = CHR ''T'' \<and>
      s ! 13 = CHR '':'' \<and> s ! 16 = CHR '':'' \<and> last s = CHR ''Z'')"

definition isoParse :: "string \<Rightarrow> int option" where
  "isoParse s =
     (if isoShape s then
        (case isoFields s of
           None \<Rightarrow> None
         | Some (y, mo, d, hh, mi, ss, ms) \<Rightarrow>
            if 1 \<le> mo \<and> mo \<le> 12 \<and> 1 \<le> d \<and> d \<le> daysInMonth y mo \<and>
               hh \<le> 23 \<and> mi \<le> 59 \<and> ss \<le> 59
            then Some (daysFromCivil y mo d * msPerDay +
                       hh * 3600000 + mi * 60000 + ss * 1000 + ms)
            else None)
      else None)"

definition digitChar :: "nat \<Rightarrow> char" where
  "digitChar d = ''0123456789'' ! d"

fun digitsOf :: "nat \<Rightarrow> string" where
  "digitsOf n =
     (if n < 10 then [digitChar n] else digitsOf (n div 10) @ [digitChar (n mod 10)])"

definition intToString :: "int \<Rightarrow> string" where
  "intToString n = (if n < 0 then CHR ''-'' # digitsOf (nat (- n)) else digitsOf (nat n))"

definition decimalToNumber :: "string \<Rightarrow> number" where
  "decimalToNumber s =
     (case s of
        [] \<Rightarrow> Fin 0
      | c # cs \<Rightarrow>
         if c = CHR ''-'' \<and> cs \<noteq> []
         then (case natOfDigits 0 cs of None \<Rightarrow> NaN | Some n \<Rightarrow> Fin (- of_int n))
         else (case natOfDigits 0 s of None \<Rightarrow> NaN | Some n \<Rightarrow> Fin (of_int n)))"

definition exampleJsonParse :: "string \<Rightarrow> json option" where
  "exampleJsonParse s =
     (if s = ''null'' then Some JNull
      else if s = ''true'' then Some (JBool True)
      else if s = ''false'' then Some (JBool False)
      else if s = ''[]'' then Some (JArr [])
      else if s = ''{}'' then Some (JObj [])
      else None)"

definition exampleJsonStringify :: "json \<Rightarrow> string" where
  "exampleJsonStringify v =
     (case v of
        JNull \<Rightarrow> ''null''
      | JBool b \<Rightarrow> (if b then ''true'' else ''false'')
      | JArr [] \<Rightarrow> ''[]''
      | JObj [] \<Rightarrow> ''{}''
      | _ \<Rightarrow> ''?'')"

definition exampleHost :: host where
  "exampleHost =
     \<lparr>dateParse = isoParse,
      localTZA = (\<lambda>t. 0),
      toNumber = decimalToNumber,
      numberToString = intToString,
      jsonParse = exampleJsonParse,
      jsonStringify = exampleJsonStringify,
      quotaAllows = (\<lambda>st k v. True)\<rparr>"

text \<open>The same machine with a full disk: no write to local storage succeeds.\<close>

definition fullHost :: host where
  "fullHost = exampleHost\<lparr>quotaAllows := (\<lambda>st k v. False)\<rparr>"

text \<open>The same machine in Dhaka, six hours ahead of UTC.\<close>

definition dhakaHost :: host where
  "dhakaHost = exampleHost\<lparr>localTZA := (\<lambda>t. 21600000)\<rparr>"

text \<open>And with room for values of at most two characters only.\<close>

definition tightHost :: host where
  "tightHost = exampleHost\<lparr>quotaAllows := (\<lambda>st k v. length v \<le> 2)\<rparr>"

section \<open>The properties, in the words of the specification\<close>

text \<open>A ride whose \<^verbatim>\<open>from\<close> and \<^verbatim>\<open>to\<close> are strings, as the data model has them.\<close>

definition isStr :: "field \<Rightarrow> bool" where
  "isStr v = (case v of Str s \<Rightarrow> True | _ \<Rightarrow> False)"

definition hasRoute :: "ride \<Rightarrow> bool" where
  "hasRoute r = (isStr (ride_from r) \<and> isStr (ride_to r))"

text \<open>Two time values fall on the same local calendar day: same year, month and day.\<close>

definition sameLocalDay :: "host \<Rightarrow> int \<Rightarrow> int \<Rightarrow> bool" where
  "sameLocalDay h t1 t2 = (civil (Day (LocalTime h t1)) = civil (Day (LocalTime h t2)))"

text \<open>
  The match criteria of the specification for a ride \<open>m\<close> of the user and a candidate
  \<open>c\<close>: same \<^verbatim>\<open>from\<close> and same \<^verbatim>\<open>to\<close> after lowercasing, same local calendar day, and
  at most 30 minutes (1800000 milliseconds) apart.
\<close>

definition matchCriteria :: "host \<Rightarrow> ride \<Rightarrow> ride \<Rightarrow> bool" where
  "matchCriteria h m c =
     (toLowerCase (ride_from m) = toLowerCase (ride_from c) \<and>
      toLowerCase (ride_to m) = toLowerCase (ride_to c) \<and>
      (case newDate h (ride_time m) of
         None \<Rightarrow> False
       | Some t1 \<Rightarrow>
          (case newDate h (ride_time c) of
             None \<Rightarrow> False
           | Some t2 \<Rightarrow> sameLocalDay h t1 t2 \<and> \<bar>t1 - t2\<bar> \<le> 30 * 60 * 1000)))"


definition validTime :: "host \<Rightarrow> ride \<Rightarrow> bool" where
  "validTime h c = (newDate h (ride_time c) \<noteq> None)"

section \<open>Example rides\<close>

text \<open>
  The user has posted Campus to Kuril at 09:00 and at 23:50 on 10 March 2025. The
  candidates: the same route at 09:30 sharp, written in other letter cases; the same
  route one second later; the opposite direction at 09:00; and the same route twenty
  minutes after the user's second ride, which is past midnight.
\<close>

definition myRideMorning :: ride where
  "myRideMorning = \<lparr>ride_id = 1, ride_from = Str ''Campus'', ride_to = Str ''Kuril'',
     ride_time = Str ''2025-03-10T09:00:00.000Z''\<rparr>"

definition myRideNight :: ride where
  "myRideNight = \<lparr>ride_id = 2, ride_from = Str ''Campus'', ride_to = Str ''Kuril'',
     ride_time = Str ''2025-03-10T23:50:00.000Z''\<rparr>"

definition candHalfHour :: ride where
  "candHalfHour = \<lparr>ride_id = 11, ride_from = Str ''campus'', ride_to = Str ''KURIL'',
     ride_time = Str ''2025-03-10T09:30:00.000Z''\<rparr>"

definition candOneSecondLate :: ride where
  "candOneSecondLate = \<lparr>ride_id = 12, ride_from = Str ''Campus'', ride_to = Str ''Kuril'',
     ride_time = Str ''2025-03-10T09:30:01.000Z''\<rparr>"

definition candReverse :: ride where
  "candReverse = \<lparr>ride_id = 13, ride_from = Str ''Kuril'', ride_to = Str ''Campus'',
     ride_time = Str ''2025-03-10T09:00:00.000Z''\<rparr>"

definition candNextDay :: ride where
  "candNextDay = \<lparr>ride_id = 14, ride_from = Str ''Campus'', ride_to = Str ''Kuril'',
     ride_time = Str ''2025-03-11T00:10:00.000Z''\<rparr>"

text \<open>
  The clock reads 09:00 on 10 March 2025. The user has posted Campus to Kuril at 09:10;
  four candidates on that route leave 10 minutes after the clock reading, 40 minutes
  after, 5 minutes before and 10 minutes before.
\<close>

definition nowNine :: int where
  "nowNine = 1741597200000"






text \<open>
  Rides with a missing field: a ride of the user with no \<^verbatim>\<open>from\<close>, a candidate on the
  user's route with no \<^verbatim>\<open>to\<close>, a ride of the user with a \<^verbatim>\<open>null\<close> time, a candidate
  ten minutes after the epoch, a candidate with no time at all, and two rides whose
  time is not a timestamp.
\<close>

definition myRideNullFrom :: ride where
  "myRideNullFrom = \<lparr>ride_id = 4, ride_from = Null, ride_to = Str ''Kuril'',
     ride_time = Str ''2025-03-10T09:00:00.000Z''\<rparr>"

definition candNullTo :: ride where
  "candNullTo = \<lparr>ride_id = 31, ride_from = Str ''Campus'', ride_to = Null,
     ride_time = Str ''2025-03-10T09:00:00.000Z''\<rparr>"

definition myRideNullTime :: ride where
  "myRideNullTime = \<lparr>ride_id = 5, ride_from = Str ''Campus'', ride_to = Str ''Kuril'',
     ride_time = Null\<rparr>"

definition candEpoch :: ride where
  "candEpoch = \<lparr>ride_id = 32, ride_from = Str ''Campus'', ride_to = Str ''Kuril'',
     ride_time = Str ''1970-01-01T00:10:00.000Z''\<rparr>"

definition candNoTime :: ride where
  "candNoTime = \<lparr>ride_id = 33, ride_from = Str ''Campus'', ride_to = Str ''Kuril'',
     ride_time = Absent\<rparr>"

definition myRideBadTime :: ride where
  "myRideBadTime = \<lparr>ride_id = 6, ride_from = Str ''Campus'', ride_to = Str ''Kuril'',
     ride_time = Str ''tomorrow morning''\<rparr>"

definition candBadTime :: ride where
  "candBadTime = \<lparr>ride_id = 34, ride_from = Str ''Campus'', ride_to = Str ''Kuril'',
     ride_time = Str ''tomorrow morning''\<rparr>"

section \<open>Properties of the data cache, in the words of the specification\<close>

text \<open>A successful write: each of the three \<^verbatim>\<open>setItem\<close> calls of \<^verbatim>\<open>setCacheData\<close> is allowed.\<close>

definition writeSucceeds :: "host \<Rightarrow> storage \<Rightarrow> int \<Rightarrow> json \<Rightarrow> json \<Rightarrow> bool" where
  "writeSucceeds h st now rides profile =
     (quotaAllows h st CACHE_KEYS_RIDES (jsonStringify h rides) \<and>
      quotaAllows h (st(CACHE_KEYS_RIDES \<mapsto> jsonStringify h rides))
        CACHE_KEYS_PROFILE (jsonStringify h profile) \<and>
      quotaAllows h (st(CACHE_KEYS_RIDES \<mapsto> jsonStringify h rides,
                        CACHE_KEYS_PROFILE \<mapsto> jsonStringify h profile))
        CACHE_KEYS_LAST_FETCH (numberToString h now))"

text \<open>Fifteen minutes, in milliseconds.\<close>

definition fifteenMinutes :: int where
  "fifteenMinutes = 900000"

text \<open>
  Storage states for the examples: nothing stored; a rides entry that is not JSON next
  to a good profile; and the snapshot of an empty match list written at 09:00 on
  10 March 2025.
\<close>

definition emptyStorage :: storage where
  "emptyStorage = Map.empty"

definition corruptStorage :: storage where
  "corruptStorage = [CACHE_KEYS_RIDES \<mapsto> ''<html>'', CACHE_KEYS_PROFILE \<mapsto> ''{}'',
     CACHE_KEYS_LAST_FETCH \<mapsto> ''1741597200000'']"

definition freshStorage :: storage where
  "freshStorage = [CACHE_KEYS_RIDES \<mapsto> ''[]'', CACHE_KEYS_PROFILE \<mapsto> ''{}'',
     CACHE_KEYS_LAST_FETCH \<mapsto> ''1741597200000'']"

definition nullProfileStorage :: storage where
  "nullProfileStorage = [CACHE_KEYS_RIDES \<mapsto> ''[]'', CACHE_KEYS_PROFILE \<mapsto> ''null'',
     CACHE_KEYS_LAST_FETCH \<mapsto> ''1741597200000'']"

section \<open>Properties of the service worker, in the words of the specification\<close>

text \<open>
  What the page receives from the handler: the content of the object passed to
  \<^verbatim>\<open>respondWith\<close>, provided its body has not been read; nothing otherwise.
\<close>

definition served :: "outcome \<times> worker \<Rightarrow> response option" where
  "served ow =
     (case fst ow of
        NotIntercepted \<Rightarrow> None
      | RespondWith None \<Rightarrow> None
      | RespondWith (Some ref) \<Rightarrow>
          if ref < length (objects (snd ow)) \<and> \<not> bodyUsed (objects (snd ow) ! ref)
          then Some (content (objects (snd ow) ! ref)) else None)"

text \<open>The entry of a URL in the cache of a given name.\<close>

definition storedIn :: "worker \<Rightarrow> string \<Rightarrow> string \<Rightarrow> response option" where
  "storedIn w name u =
     (case map_of (cacheStorage w) name of None \<Rightarrow> None | Some entries \<Rightarrow> map_of entries u)"

text \<open>The cached entry that matches a request: that of its URL, for a GET request.\<close>

definition cachedFor :: "worker \<Rightarrow> request \<Rightarrow> response option" where
  "cachedFor w req =
     (if req_method req = ''GET'' then cacheLookup (cacheStorage w) (req_url req) else None)"

definition sameOriginApi :: "string \<Rightarrow> request \<Rightarrow> bool" where
  "sameOriginApi origin req =
     (startsWith (req_url req) origin \<and> includes_str (req_url req) ''/api/'')"

definition sameOriginOther :: "string \<Rightarrow> request \<Rightarrow> bool" where
  "sameOriginOther origin req =
     (startsWith (req_url req) origin \<and> \<not> includes_str (req_url req) ''/api/'')"

text \<open>
  The examples: a worker whose cache holds the root document, as after installation, and
  requests of the application at the origin \<^verbatim>\<open>https://rides.example\<close>.
\<close>

definition exampleOrigin :: string where
  "exampleOrigin = ''https://rides.example''"

definition rootDocument :: response where
  "rootDocument = \<lparr>resp_status = 200, resp_body = ''<!doctype html><div id=root></div>''\<rparr>"

definition installedWorker :: worker where
  "installedWorker =
     \<lparr>cacheStorage = [(CACHE_NAME, [(''https://rides.example/index.html'', rootDocument)])],
      objects = []\<rparr>"

definition apiRequest :: request where
  "apiRequest = \<lparr>req_url = ''https://rides.example/api/x'', req_method = ''GET'',
     req_mode = ''cors''\<rparr>"

definition apiAnswer :: response where
  "apiAnswer = \<lparr>resp_status = 200, resp_body = ''answer of the first call''\<rparr>"

definition scriptRequest :: request where
  "scriptRequest = \<lparr>req_url = ''https://rides.example/static/js/main.bundle.js'',
     req_method = ''GET'', req_mode = ''no-cors''\<rparr>"

definition scriptAnswer :: response where
  "scriptAnswer = \<lparr>resp_status = 200, resp_body = ''console.log(1)''\<rparr>"

definition pageRequest :: request where
  "pageRequest = \<lparr>req_url = ''https://rides.example/find'', req_method = ''GET'',
     req_mode = ''navigate''\<rparr>"

definition imageRequest :: request where
  "imageRequest = \<lparr>req_url = ''https://rides.example/logo192.png'', req_method = ''GET'',
     req_mode = ''no-cors''\<rparr>"

text \<open>
  Two rides twenty minutes apart around 18:00 UTC, which is midnight in Dhaka.
\<close>

definition myRideEvening :: ride where
  "myRideEvening = \<lparr>ride_id = 7, ride_from = Str ''Campus'', ride_to = Str ''Kuril'',
     ride_time = Str ''2025-03-10T17:50:00.000Z''\<rparr>"

definition candEvening :: ride where
  "candEvening = \<lparr>ride_id = 41, ride_from = Str ''Campus'', ride_to = Str ''Kuril'',
     ride_time = Str ''2025-03-10T18:10:00.000Z''\<rparr>"

section \<open>The match filter: proofs\<close>


lemma toLowerCase_Str: "isStr v \<Longrightarrow> toLowerCase v = Inr (map lowerChar (case v of Str s \<Rightarrow> s | _ \<Rightarrow> []))"
  by (cases v) (simp_all add: isStr_def toLowerCase_def)

lemma routeMatches_typed:
  assumes "hasRoute m" "hasRoute c"
  shows "routeMatches m c =
    Inr (toLowerCase (ride_from m) = toLowerCase (ride_from c) \<and>
         toLowerCase (ride_to m) = toLowerCase (ride_to c))"
  using assms
  by (auto simp: hasRoute_def routeMatches_def dest!: toLowerCase_Str)

lemma isSameDay_iff:
  "isSameDay h a b =
    (case newDate h a of None \<Rightarrow> False
     | Some t1 \<Rightarrow> (case newDate h b of None \<Rightarrow> False | Some t2 \<Rightarrow> sameLocalDay h t1 t2))"
  by (auto simp: isSameDay_def Let_def getFullYear_def getMonth_def getDate_def sameLocalDay_def
      YearFromTime_def MonthFromTime_def DateFromTime_def prod_eq_iff split: option.splits)

lemma isTimeWithinRange_iff:
  "isTimeWithinRange h a b 30 =
    (case newDate h a of None \<Rightarrow> False
     | Some t1 \<Rightarrow> (case newDate h b of None \<Rightarrow> False | Some t2 \<Rightarrow> \<bar>t1 - t2\<bar> \<le> 30 * 60 * 1000))"
proof -
  have "(\<bar>rat_of_int t1 - rat_of_int t2\<bar> / (1000 * 60) \<le> 30) = (\<bar>t1 - t2\<bar> \<le> 30 * 60 * 1000)" for t1 t2 :: int
  proof -
    have "(\<bar>rat_of_int t1 - rat_of_int t2\<bar> / (1000 * 60) \<le> 30) =
        (rat_of_int \<bar>t1 - t2\<bar> \<le> rat_of_int 1800000)"
      by (simp add: field_simps)
    also have "\<dots> = (\<bar>t1 - t2\<bar> \<le> 1800000)" by (rule of_int_le_iff)
    finally show ?thesis by simp
  qed
  then show ?thesis
    by (simp add: isTimeWithinRange_def Let_def valueOf_def split: option.splits)
qed

lemma rideMatches_typed:
  assumes "hasRoute m" "hasRoute c"
  shows "rideMatches h c m = Inr (matchCriteria h m c)"
  by (simp add: rideMatches_def routeMatches_typed[OF assms] matchCriteria_def
      isSameDay_iff isTimeWithinRange_iff Let_def split: option.splits)

lemma array_some_total:
  "(\<And>x. x \<in> set xs \<Longrightarrow> p x = Inr (q x)) \<Longrightarrow> array_some p xs = Inr (list_ex q xs)"
  by (induction xs) auto

lemma array_filter_total:
  "(\<And>x. x \<in> set xs \<Longrightarrow> p x = Inr (q x)) \<Longrightarrow> array_filter p xs = Inr (filter q xs)"
  by (induction xs) auto

lemma matchedRides_typed:
  assumes "list_all hasRoute myRides" "list_all hasRoute candidateRides"
  shows "matchedRides h (Some candidateRides) (Some myRides) =
    Inr (filter (\<lambda>c. list_ex (\<lambda>m. matchCriteria h m c) myRides) candidateRides)"
proof -
  have "array_some (\<lambda>myRide. rideMatches h c myRide) myRides =
      Inr (list_ex (\<lambda>m. matchCriteria h m c) myRides)" if "c \<in> set candidateRides" for c
  proof (rule array_some_total)
    fix m assume "m \<in> set myRides"
    with assms that have "hasRoute m" "hasRoute c" by (auto simp: list_all_iff)
    then show "rideMatches h c m = Inr (matchCriteria h m c)" by (rule rideMatches_typed)
  qed
  then show ?thesis
    unfolding matchedRides_def orEmpty_def by (simp add: array_filter_total)
qed

text \<open>
  Claim C1 (match filter membership). When the \<^verbatim>\<open>from\<close> and \<^verbatim>\<open>to\<close> of every ride are
  strings, the match returns normally, and what it returns is the candidate list
  filtered, in its order, by: some ride \<open>m\<close> of the user has the same \<^verbatim>\<open>from\<close> and the
  same \<^verbatim>\<open>to\<close> after lowercasing (\<^verbatim>\<open>from\<close> against \<^verbatim>\<open>from\<close> and \<^verbatim>\<open>to\<close> against \<^verbatim>\<open>to\<close>,
  so a route never matches its reverse), falls on the same local calendar day, and is
  at most 30 minutes away, 30 minutes included. A candidate is retained if and only if
  such an \<open>m\<close> exists, it is not repeated for matching several rides of the user, and
  the result is empty as soon as one of the two lists is empty or \<^verbatim>\<open>null\<close>.
\<close>

theorem match_filter_membership:
  "(list_all hasRoute myRides \<and> list_all hasRoute candidateRides \<longrightarrow>
      (\<exists>res. matchedRides h (Some candidateRides) (Some myRides) = Inr res \<and>
         res = filter (\<lambda>c. \<exists>m \<in> set myRides. matchCriteria h m c) candidateRides \<and>
         (\<forall>c. c \<in> set res \<longleftrightarrow>
                c \<in> set candidateRides \<and> (\<exists>m \<in> set myRides. matchCriteria h m c)) \<and>
         (\<forall>c. count_list res c \<le> count_list candidateRides c))) \<and>
   matchedRides h rides (Some []) = Inr [] \<and>
   matchedRides h rides None = Inr [] \<and>
   matchedRides h (Some []) mine = Inr [] \<and>
   matchedRides h None mine = Inr []"
proof -
  have count: "count_list (filter P xs) c \<le> count_list xs c" for P and xs :: "ride list" and c
    by (induction xs) auto
  have none: "array_filter (\<lambda>ride. Inr False :: error + bool) xs = Inr []" for xs :: "ride list"
    by (induction xs) auto
  have typed: "list_all hasRoute myRides \<and> list_all hasRoute candidateRides \<longrightarrow>
      (\<exists>res. matchedRides h (Some candidateRides) (Some myRides) = Inr res \<and>
         res = filter (\<lambda>c. \<exists>m \<in> set myRides. matchCriteria h m c) candidateRides \<and>
         (\<forall>c. c \<in> set res \<longleftrightarrow>
                c \<in> set candidateRides \<and> (\<exists>m \<in> set myRides. matchCriteria h m c)) \<and>
         (\<forall>c. count_list res c \<le> count_list candidateRides c))"
    by (auto simp: matchedRides_typed list_ex_iff count)
  have "matchedRides h rides (Some []) = Inr []" "matchedRides h rides None = Inr []"
    by (simp_all add: matchedRides_def orEmpty_def none)
  moreover have "matchedRides h (Some []) mine = Inr []" "matchedRides h None mine = Inr []"
    by (simp_all add: matchedRides_def orEmpty_def)
  ultimately show ?thesis using typed by blast
qed

theorem match_filter_membership_witness:
  "list_all hasRoute [myRideMorning, myRideNight] \<and>
   list_all hasRoute [candHalfHour, candOneSecondLate, candReverse, candNextDay] \<and>
   matchedRides exampleHost
     (Some [candHalfHour, candOneSecondLate, candReverse, candNextDay])
     (Some [myRideMorning, myRideNight]) = Inr [candHalfHour]"
proof -
  have typed: "list_all hasRoute [myRideMorning, myRideNight] \<and>
      list_all hasRoute [candHalfHour, candOneSecondLate, candReverse, candNextDay]"
    by code_simp
  have kept: "filter (\<lambda>c. \<exists>m \<in> set [myRideMorning, myRideNight]. matchCriteria exampleHost m c)
      [candHalfHour, candOneSecondLate, candReverse, candNextDay] = [candHalfHour]"
    by code_simp
  from typed
    match_filter_membership [of "[myRideMorning, myRideNight]"
      "[candHalfHour, candOneSecondLate, candReverse, candNextDay]" exampleHost]
  have "matchedRides exampleHost
     (Some [candHalfHour, candOneSecondLate, candReverse, candNextDay])
     (Some [myRideMorning, myRideNight]) =
     Inr (filter (\<lambda>c. \<exists>m \<in> set [myRideMorning, myRideNight]. matchCriteria exampleHost m c)
      [candHalfHour, candOneSecondLate, candReverse, candNextDay])"
    by blast
  with typed kept show ?thesis by simp
qed

text \<open>
  The example host on a few dates: 10 March 2025 at 09:00 UTC is 1741597200000
  milliseconds after the epoch, there is no 29 February in 2025, the day before the
  epoch is 31 December 1969, and 29 February 2000 exists. Months count from 0.
\<close>

lemma example_dates:
  "dateParse exampleHost ''2025-03-10T09:00:00.000Z'' = Some 1741597200000 \<and>
   dateParse exampleHost ''2025-03-10T09:00:00Z'' = Some 1741597200000 \<and>
   dateParse exampleHost ''1970-01-01T00:10:00.000Z'' = Some 600000 \<and>
   dateParse exampleHost ''2025-02-29T09:00:00.000Z'' = None \<and>
   dateParse exampleHost ''tomorrow morning'' = None \<and>
   civil (Day 1741597200000) = (2025, 2, 10) \<and>
   civil (Day (- 1)) = (1969, 11, 31) \<and>
   civil (Day 951782400000) = (2000, 1, 29)"
  by code_simp

text \<open>
  The calendar day is the local one: two rides at 17:50 and 18:10 UTC match on a machine
  in UTC and do not match on a machine in Dhaka, where the second is on the next day.
\<close>

lemma local_day_example:
  "matchedRides exampleHost (Some [candEvening]) (Some [myRideEvening]) = Inr [candEvening] \<and>
   matchedRides dhakaHost (Some [candEvening]) (Some [myRideEvening]) = Inr []"
  by code_simp

section \<open>The sort: proofs\<close>

















section \<open>Missing fields and malformed timestamps\<close>


lemma matchCriteria_validTime: "matchCriteria h m c \<Longrightarrow> validTime h m \<and> validTime h c"
  by (auto simp: matchCriteria_def validTime_def split: option.splits)

lemma validTime_not_Absent: "validTime h c \<Longrightarrow> ride_time c \<noteq> Absent"
  by (auto simp: validTime_def newDate_def)

lemma filter_match_restrict:
  assumes "\<And>m c. matchCriteria h m c \<Longrightarrow> P m \<and> P c"
  shows "filter (\<lambda>c. list_ex (\<lambda>m. matchCriteria h m c) (filter P myRides)) (filter P candidateRides)
    = filter (\<lambda>c. list_ex (\<lambda>m. matchCriteria h m c) myRides) candidateRides"
proof -
  have "list_ex (\<lambda>m. matchCriteria h m c) (filter P myRides) =
      list_ex (\<lambda>m. matchCriteria h m c) myRides" for c
    using assms by (auto simp: list_ex_iff)
  moreover have "filter (\<lambda>c. list_ex (\<lambda>m. matchCriteria h m c) myRides) (filter P candidateRides) =
      filter (\<lambda>c. list_ex (\<lambda>m. matchCriteria h m c) myRides) candidateRides"
    using assms by (induction candidateRides) (auto simp: list_ex_iff)
  ultimately show ?thesis by simp
qed

lemma matchedRides_restrict:
  assumes typed: "list_all hasRoute myRides" "list_all hasRoute candidateRides"
    and P: "\<And>m c. matchCriteria h m c \<Longrightarrow> P m \<and> P c"
  shows "matchedRides h (Some (filter P candidateRides)) (Some (filter P myRides)) =
    matchedRides h (Some candidateRides) (Some myRides)"
proof -
  from typed have "list_all hasRoute (filter P myRides)" "list_all hasRoute (filter P candidateRides)"
    by (auto simp: list_all_iff)
  then have "matchedRides h (Some (filter P candidateRides)) (Some (filter P myRides)) =
      Inr (filter (\<lambda>c. list_ex (\<lambda>m. matchCriteria h m c) (filter P myRides))
        (filter P candidateRides))"
    by (rule matchedRides_typed)
  also have "\<dots> = Inr (filter (\<lambda>c. list_ex (\<lambda>m. matchCriteria h m c) myRides) candidateRides)"
    using P by (simp only: filter_match_restrict)
  also have "\<dots> = matchedRides h (Some candidateRides) (Some myRides)"
    using typed by (rule matchedRides_typed [symmetric])
  finally show ?thesis .
qed

lemma matchedRides_throws_first:
  assumes "routeMatches m c = Inl e"
  shows "matchedRides h (Some (c # cs)) (Some (m # ms)) = Inl e"
  using assms by (simp add: matchedRides_def orEmpty_def rideMatches_def)

text \<open>
  Claim C3 (null-safe matching), as amended. The code reads \<^verbatim>\<open>from\<close> and \<^verbatim>\<open>to\<close> with no
  guard. When the \<^verbatim>\<open>from\<close> and \<^verbatim>\<open>to\<close> of every ride are strings, the match returns
  normally whatever the time fields are: no ride with an absent time is retained, the
  rides with an absent time can be dropped from both lists without changing the result,
  and a \<^verbatim>\<open>null\<close> time is read as the epoch. When the first pair compared has a \<^verbatim>\<open>from\<close>
  that is not a string, or equal \<^verbatim>\<open>from\<close> fields and a \<^verbatim>\<open>to\<close> that is not a string, the
  match ends with a TypeError; and whenever the match throws, \<^verbatim>\<open>fetchData\<close> runs its
  \<^verbatim>\<open>catch\<close> branch, which shows the cached rides when there are any and writes nothing.
\<close>

theorem match_missing_fields:
  "(list_all hasRoute myRides \<and> list_all hasRoute candidateRides \<longrightarrow>
      (\<exists>res. matchedRides h (Some candidateRides) (Some myRides) = Inr res \<and>
         list_all (\<lambda>c. ride_time c \<noteq> Absent) res \<and>
         matchedRides h (Some (filter (\<lambda>c. ride_time c \<noteq> Absent) candidateRides))
           (Some (filter (\<lambda>m. ride_time m \<noteq> Absent) myRides)) = Inr res)) \<and>
   newDate h Null = Some 0 \<and>
   (\<not> isStr (ride_from m) \<or> \<not> isStr (ride_from c) \<longrightarrow>
      matchedRides h (Some (c # cs)) (Some (m # ms)) = Inl TypeError) \<and>
   (isStr (ride_from m') \<and> isStr (ride_from c') \<and>
    toLowerCase (ride_from m') = toLowerCase (ride_from c') \<and>
    (\<not> isStr (ride_to m') \<or> \<not> isStr (ride_to c')) \<longrightarrow>
      matchedRides h (Some (c' # cs')) (Some (m' # ms')) = Inl TypeError) \<and>
   (matchedRides h rides0 myRides0 = Inl e \<longrightarrow>
      fetchData_matches h st now later profile rides0 myRides0 =
        (if truthy (fst (getCachedData h st)) then ShowCached (fst (getCachedData h st))
         else ShowNothingNew, st))"
proof -
  have caught: "matchedRides h rides0 myRides0 = Inl e \<longrightarrow>
      fetchData_matches h st now later profile rides0 myRides0 =
        (if truthy (fst (getCachedData h st)) then ShowCached (fst (getCachedData h st))
         else ShowNothingNew, st)"
    by (simp add: fetchData_matches_def split: prod.splits)
  have absent: "matchCriteria h m c \<Longrightarrow> ride_time m \<noteq> Absent \<and> ride_time c \<noteq> Absent" for m c
    by (auto dest!: matchCriteria_validTime validTime_not_Absent)
  have typed: "list_all hasRoute myRides \<and> list_all hasRoute candidateRides \<longrightarrow>
      (\<exists>res. matchedRides h (Some candidateRides) (Some myRides) = Inr res \<and>
         list_all (\<lambda>c. ride_time c \<noteq> Absent) res \<and>
         matchedRides h (Some (filter (\<lambda>c. ride_time c \<noteq> Absent) candidateRides))
           (Some (filter (\<lambda>m. ride_time m \<noteq> Absent) myRides)) = Inr res)"
  proof (intro impI, elim conjE)
    assume t: "list_all hasRoute myRides" "list_all hasRoute candidateRides"
    let ?res = "filter (\<lambda>c. list_ex (\<lambda>m. matchCriteria h m c) myRides) candidateRides"
    have r: "matchedRides h (Some candidateRides) (Some myRides) = Inr ?res"
      using t by (rule matchedRides_typed)
    have "list_all (\<lambda>c. ride_time c \<noteq> Absent) ?res"
      using absent by (auto simp: list_all_iff list_ex_iff)
    moreover have "matchedRides h (Some (filter (\<lambda>c. ride_time c \<noteq> Absent) candidateRides))
        (Some (filter (\<lambda>m. ride_time m \<noteq> Absent) myRides)) = Inr ?res"
      using matchedRides_restrict [OF t, of h "\<lambda>c. ride_time c \<noteq> Absent"] absent r by simp
    ultimately show "\<exists>res. matchedRides h (Some candidateRides) (Some myRides) = Inr res \<and>
         list_all (\<lambda>c. ride_time c \<noteq> Absent) res \<and>
         matchedRides h (Some (filter (\<lambda>c. ride_time c \<noteq> Absent) candidateRides))
           (Some (filter (\<lambda>m. ride_time m \<noteq> Absent) myRides)) = Inr res"
      using r by blast
  qed
  have epoch: "newDate h Null = Some 0" by (simp add: newDate_def)
  have noFrom: "\<not> isStr (ride_from m) \<or> \<not> isStr (ride_from c) \<longrightarrow>
      matchedRides h (Some (c # cs)) (Some (m # ms)) = Inl TypeError"
  proof
    assume "\<not> isStr (ride_from m) \<or> \<not> isStr (ride_from c)"
    then have "routeMatches m c = Inl TypeError"
      by (cases "ride_from m"; cases "ride_from c")
        (simp_all add: routeMatches_def toLowerCase_def isStr_def)
    then show "matchedRides h (Some (c # cs)) (Some (m # ms)) = Inl TypeError"
      by (rule matchedRides_throws_first)
  qed
  have noTo: "isStr (ride_from m') \<and> isStr (ride_from c') \<and>
    toLowerCase (ride_from m') = toLowerCase (ride_from c') \<and>
    (\<not> isStr (ride_to m') \<or> \<not> isStr (ride_to c')) \<longrightarrow>
      matchedRides h (Some (c' # cs')) (Some (m' # ms')) = Inl TypeError"
  proof
    assume a: "isStr (ride_from m') \<and> isStr (ride_from c') \<and>
      toLowerCase (ride_from m') = toLowerCase (ride_from c') \<and>
      (\<not> isStr (ride_to m') \<or> \<not> isStr (ride_to c'))"
    then have "routeMatches m' c' = Inl TypeError"
      by (cases "ride_from m'"; cases "ride_from c'"; cases "ride_to m'"; cases "ride_to c'")
        (simp_all add: routeMatches_def toLowerCase_def isStr_def)
    then show "matchedRides h (Some (c' # cs')) (Some (m' # ms')) = Inl TypeError"
      by (rule matchedRides_throws_first)
  qed
  from typed epoch noFrom noTo caught show ?thesis by blast
qed

theorem match_missing_fields_witness:
  "list_all hasRoute [myRideMorning, myRideNullTime] \<and>
   list_all hasRoute [candHalfHour, candNoTime, candEpoch] \<and>
   matchedRides exampleHost (Some [candHalfHour, candNoTime, candEpoch])
     (Some [myRideMorning, myRideNullTime]) = Inr [candHalfHour, candEpoch] \<and>
   matchedRides exampleHost (Some [candHalfHour, candEpoch])
     (Some [myRideMorning, myRideNullTime]) = Inr [candHalfHour, candEpoch] \<and>
   \<not> isStr (ride_from myRideNullFrom) \<and>
   matchedRides exampleHost (Some [candHalfHour, candNoTime]) (Some [myRideNullFrom, myRideMorning])
     = Inl TypeError \<and>
   toLowerCase (ride_from myRideMorning) = toLowerCase (ride_from candNullTo) \<and>
   \<not> isStr (ride_to candNullTo) \<and>
   matchedRides exampleHost (Some [candNullTo, candHalfHour]) (Some [myRideMorning]) = Inl TypeError \<and>
   fetchData_matches exampleHost freshStorage nowNine nowNine (JObj [])
     (Some [candNullTo, candHalfHour]) (Some [myRideMorning]) = (ShowCached (JArr []), freshStorage)"
proof -
  have typed: "list_all hasRoute [myRideMorning, myRideNullTime] \<and>
      list_all hasRoute [candHalfHour, candNoTime, candEpoch]"
    by code_simp
  have res: "matchedRides exampleHost (Some [candHalfHour, candNoTime, candEpoch])
      (Some [myRideMorning, myRideNullTime]) = Inr [candHalfHour, candEpoch]"
    by code_simp
  have dropped: "filter (\<lambda>c. ride_time c \<noteq> Absent) [candHalfHour, candNoTime, candEpoch] =
      [candHalfHour, candEpoch]"
    "filter (\<lambda>m. ride_time m \<noteq> Absent) [myRideMorning, myRideNullTime] =
      [myRideMorning, myRideNullTime]"
    by code_simp+
  have noFrom: "\<not> isStr (ride_from myRideNullFrom)" by code_simp
  have noTo: "isStr (ride_from myRideMorning) \<and> isStr (ride_from candNullTo) \<and>
      toLowerCase (ride_from myRideMorning) = toLowerCase (ride_from candNullTo) \<and>
      \<not> isStr (ride_to candNullTo)"
    by code_simp
  note inst = match_missing_fields [of "[myRideMorning, myRideNullTime]"
      "[candHalfHour, candNoTime, candEpoch]" exampleHost myRideNullFrom candHalfHour
      "[candNoTime]" "[myRideMorning]" myRideMorning candNullTo "[candHalfHour]" "[]"
      "Some [candNullTo, candHalfHour]" "Some [myRideMorning]" TypeError
      freshStorage nowNine nowNine "JObj []"]
  from inst typed res have "matchedRides exampleHost
      (Some (filter (\<lambda>c. ride_time c \<noteq> Absent) [candHalfHour, candNoTime, candEpoch]))
      (Some (filter (\<lambda>m. ride_time m \<noteq> Absent) [myRideMorning, myRideNullTime])) =
      Inr [candHalfHour, candEpoch]"
    by auto
  then have kept: "matchedRides exampleHost (Some [candHalfHour, candEpoch])
      (Some [myRideMorning, myRideNullTime]) = Inr [candHalfHour, candEpoch]"
    by (simp only: dropped)
  from inst noFrom have t1: "matchedRides exampleHost (Some [candHalfHour, candNoTime])
      (Some [myRideNullFrom, myRideMorning]) = Inl TypeError"
    by blast
  from inst noTo have t2: "matchedRides exampleHost (Some [candNullTo, candHalfHour])
      (Some [myRideMorning]) = Inl TypeError"
    by blast
  have cache: "getCachedData exampleHost freshStorage = (JArr [], JObj [])" by code_simp
  from inst t2 have "fetchData_matches exampleHost freshStorage nowNine nowNine (JObj [])
      (Some [candNullTo, candHalfHour]) (Some [myRideMorning]) =
      (if truthy (fst (getCachedData exampleHost freshStorage))
       then ShowCached (fst (getCachedData exampleHost freshStorage)) else ShowNothingNew,
       freshStorage)"
    by blast
  then have t3: "fetchData_matches exampleHost freshStorage nowNine nowNine (JObj [])
      (Some [candNullTo, candHalfHour]) (Some [myRideMorning]) =
      (ShowCached (JArr []), freshStorage)"
    by (simp add: cache)
  from typed res kept noFrom t1 noTo t2 t3 show ?thesis by blast
qed

theorem match_null_safety_counterexample:
  "matchedRides exampleHost (Some [candHalfHour]) (Some [myRideNullFrom]) = Inl TypeError \<and>
   matchedRides exampleHost (Some [candNullTo]) (Some [myRideMorning]) = Inl TypeError \<and>
   matchedRides exampleHost (Some [candEpoch]) (Some [myRideNullTime]) = Inr [candEpoch] \<and>
   fst (fetchData_matches exampleHost freshStorage nowNine nowNine (JObj [])
     (Some [candHalfHour]) (Some [myRideNullFrom])) = ShowCached (JArr [])"
  by code_simp

text \<open>
  Claim C4 (malformed timestamps). When one of two time strings does not parse to a
  valid timestamp, the same-day check and the 30-minute check are both false; neither
  can raise. When the \<^verbatim>\<open>from\<close> and \<^verbatim>\<open>to\<close> of every ride are strings, the match returns
  normally, retains only rides with a valid time, and returns what it returns on the
  two lists without the rides whose time is not valid: a bad record does not abort the
  list and does not change what is matched among the others.
\<close>

theorem malformed_time_never_matches:
  "(dateParse h s1 = None \<or> dateParse h s2 = None \<longrightarrow>
      \<not> isSameDay h (Str s1) (Str s2) \<and> \<not> isTimeWithinRange h (Str s1) (Str s2) 30) \<and>
   (list_all hasRoute myRides \<and> list_all hasRoute candidateRides \<longrightarrow>
      (\<exists>res. matchedRides h (Some candidateRides) (Some myRides) = Inr res \<and>
         list_all (validTime h) res \<and>
         matchedRides h (Some (filter (validTime h) candidateRides))
           (Some (filter (validTime h) myRides)) = Inr res))"
proof -
  have checks: "dateParse h s1 = None \<or> dateParse h s2 = None \<longrightarrow>
      \<not> isSameDay h (Str s1) (Str s2) \<and> \<not> isTimeWithinRange h (Str s1) (Str s2) 30"
    by (auto simp: isSameDay_iff isTimeWithinRange_iff newDate_def split: option.splits)
  have lists: "list_all hasRoute myRides \<and> list_all hasRoute candidateRides \<longrightarrow>
      (\<exists>res. matchedRides h (Some candidateRides) (Some myRides) = Inr res \<and>
         list_all (validTime h) res \<and>
         matchedRides h (Some (filter (validTime h) candidateRides))
           (Some (filter (validTime h) myRides)) = Inr res)"
  proof (intro impI, elim conjE)
    assume t: "list_all hasRoute myRides" "list_all hasRoute candidateRides"
    let ?res = "filter (\<lambda>c. list_ex (\<lambda>m. matchCriteria h m c) myRides) candidateRides"
    have r: "matchedRides h (Some candidateRides) (Some myRides) = Inr ?res"
      using t by (rule matchedRides_typed)
    have "list_all (validTime h) ?res"
      using matchCriteria_validTime by (auto simp: list_all_iff list_ex_iff)
    moreover have "matchedRides h (Some (filter (validTime h) candidateRides))
        (Some (filter (validTime h) myRides)) = Inr ?res"
      using matchedRides_restrict [OF t, of h "validTime h"] matchCriteria_validTime r by simp
    ultimately show "\<exists>res. matchedRides h (Some candidateRides) (Some myRides) = Inr res \<and>
         list_all (validTime h) res \<and>
         matchedRides h (Some (filter (validTime h) candidateRides))
           (Some (filter (validTime h) myRides)) = Inr res"
      using r by blast
  qed
  from checks lists show ?thesis by blast
qed

theorem malformed_time_never_matches_witness:
  "dateParse exampleHost ''tomorrow morning'' = None \<and>
   \<not> isSameDay exampleHost (Str ''tomorrow morning'') (Str ''2025-03-10T09:00:00.000Z'') \<and>
   \<not> isTimeWithinRange exampleHost (Str ''tomorrow morning'') (Str ''2025-03-10T09:00:00.000Z'') 30 \<and>
   list_all hasRoute [myRideBadTime, myRideMorning] \<and>
   list_all hasRoute [candBadTime, candHalfHour] \<and>
   matchedRides exampleHost (Some [candBadTime, candHalfHour]) (Some [myRideBadTime, myRideMorning])
     = Inr [candHalfHour] \<and>
   matchedRides exampleHost (Some [candHalfHour]) (Some [myRideMorning]) = Inr [candHalfHour]"
proof -
  have bad: "dateParse exampleHost ''tomorrow morning'' = None" by code_simp
  have typed: "list_all hasRoute [myRideBadTime, myRideMorning] \<and>
      list_all hasRoute [candBadTime, candHalfHour]"
    by code_simp
  have res: "matchedRides exampleHost (Some [candBadTime, candHalfHour])
      (Some [myRideBadTime, myRideMorning]) = Inr [candHalfHour]"
    by code_simp
  have dropped: "filter (validTime exampleHost) [candBadTime, candHalfHour] = [candHalfHour]"
    "filter (validTime exampleHost) [myRideBadTime, myRideMorning] = [myRideMorning]"
    by code_simp+
  note inst = malformed_time_never_matches [of exampleHost "''tomorrow morning''"
      "''2025-03-10T09:00:00.000Z''" "[myRideBadTime, myRideMorning]" "[candBadTime, candHalfHour]"]
  from inst bad have checks:
    "\<not> isSameDay exampleHost (Str ''tomorrow morning'') (Str ''2025-03-10T09:00:00.000Z'') \<and>
     \<not> isTimeWithinRange exampleHost (Str ''tomorrow morning'') (Str ''2025-03-10T09:00:00.000Z'') 30"
    by blast
  from inst typed res have "matchedRides exampleHost
      (Some (filter (validTime exampleHost) [candBadTime, candHalfHour]))
      (Some (filter (validTime exampleHost) [myRideBadTime, myRideMorning])) = Inr [candHalfHour]"
    by auto
  then have kept: "matchedRides exampleHost (Some [candHalfHour]) (Some [myRideMorning]) =
      Inr [candHalfHour]"
    by (simp only: dropped)
  from bad checks typed res kept show ?thesis by blast
qed

section \<open>The data cache: proofs\<close>


lemma cache_keys_distinct:
  "CACHE_KEYS_RIDES \<noteq> CACHE_KEYS_PROFILE" "CACHE_KEYS_RIDES \<noteq> CACHE_KEYS_LAST_FETCH"
  "CACHE_KEYS_PROFILE \<noteq> CACHE_KEYS_LAST_FETCH" "CACHE_KEYS_PROFILE \<noteq> CACHE_KEYS_RIDES"
  "CACHE_KEYS_LAST_FETCH \<noteq> CACHE_KEYS_RIDES" "CACHE_KEYS_LAST_FETCH \<noteq> CACHE_KEYS_PROFILE"
  by (simp_all add: CACHE_KEYS_RIDES_def CACHE_KEYS_PROFILE_def CACHE_KEYS_LAST_FETCH_def)

lemma setCacheData_steps:
  "setCacheData h st now rides profile =
    (let st1 = st(CACHE_KEYS_RIDES \<mapsto> jsonStringify h rides);
         st2 = st1(CACHE_KEYS_PROFILE \<mapsto> jsonStringify h profile);
         st3 = st2(CACHE_KEYS_LAST_FETCH \<mapsto> numberToString h now)
     in if \<not> quotaAllows h st CACHE_KEYS_RIDES (jsonStringify h rides) then st
        else if \<not> quotaAllows h st1 CACHE_KEYS_PROFILE (jsonStringify h profile) then st1
        else if \<not> quotaAllows h st2 CACHE_KEYS_LAST_FETCH (numberToString h now) then st2
        else st3)"
  by (simp add: setCacheData_def setItem_def Let_def)

lemma setCacheData_succeeds:
  assumes "writeSucceeds h st now rides profile"
  shows "setCacheData h st now rides profile =
    st(CACHE_KEYS_RIDES \<mapsto> jsonStringify h rides,
       CACHE_KEYS_PROFILE \<mapsto> jsonStringify h profile,
       CACHE_KEYS_LAST_FETCH \<mapsto> numberToString h now)"
  using assms by (simp add: setCacheData_steps writeSucceeds_def Let_def)

lemma isCacheValid_Fin:
  assumes "st CACHE_KEYS_LAST_FETCH = Some s" "s \<noteq> []" "toNumber h s = Fin ts"
  shows "isCacheValid h st now = (of_int now - ts < 900000)"
  using assms by (simp add: isCacheValid_def getItem_def CACHE_EXPIRATION_def)

lemma of_int_diff_less: "(rat_of_int a - rat_of_int b < 900000) = (a - b < 900000)"
proof -
  have "(rat_of_int a - rat_of_int b < 900000) = (rat_of_int (a - b) < rat_of_int 900000)"
    by simp
  also have "\<dots> = (a - b < 900000)" by (rule of_int_less_iff)
  finally show ?thesis .
qed

text \<open>
  Claim C5 (cache TTL validity). For every storage state and clock reading,
  \<^verbatim>\<open>isCacheValid\<close> is true if and only if the last-fetch key holds a non-empty string and
  the clock reading minus the number that string reads as is less than 15 * 60 * 1000.
  When the string reads as the timestamp \<open>lastFetch\<close>, that is \<open>now - lastFetch\<close> strictly
  less than 15 minutes. After a write that succeeded at time \<open>t0\<close>, on a host that prints
  \<open>t0\<close> as a non-empty string which reads back as \<open>t0\<close>, the cache is valid at \<open>t0\<close>, and
  at any time \<open>t\<close> it is valid exactly when \<open>t - t0\<close> is less than 15 minutes.
\<close>

theorem isCacheValid_ttl:
  "(isCacheValid h st now \<longleftrightarrow>
      (\<exists>s. st CACHE_KEYS_LAST_FETCH = Some s \<and> s \<noteq> [] \<and>
           numLess (numSub (Fin (of_int now)) (toNumber h s)) (Fin (15 * 60 * 1000)))) \<and>
   (st CACHE_KEYS_LAST_FETCH = Some s \<and> s \<noteq> [] \<and> toNumber h s = Fin (of_int lastFetch) \<longrightarrow>
      (isCacheValid h st now \<longleftrightarrow> now - lastFetch < fifteenMinutes)) \<and>
   (writeSucceeds h st0 t0 rides profile \<and> numberToString h t0 \<noteq> [] \<and>
    toNumber h (numberToString h t0) = Fin (of_int t0) \<longrightarrow>
      isCacheValid h (setCacheData h st0 t0 rides profile) t0 \<and>
      (\<forall>t. isCacheValid h (setCacheData h st0 t0 rides profile) t \<longleftrightarrow> t - t0 < fifteenMinutes))"
proof -
  have a: "isCacheValid h st now \<longleftrightarrow>
      (\<exists>s. st CACHE_KEYS_LAST_FETCH = Some s \<and> s \<noteq> [] \<and>
           numLess (numSub (Fin (of_int now)) (toNumber h s)) (Fin (15 * 60 * 1000)))"
    by (auto simp: isCacheValid_def getItem_def CACHE_EXPIRATION_def split: option.splits)
  have b: "st CACHE_KEYS_LAST_FETCH = Some s \<and> s \<noteq> [] \<and> toNumber h s = Fin (of_int lastFetch) \<longrightarrow>
      (isCacheValid h st now \<longleftrightarrow> now - lastFetch < fifteenMinutes)"
    by (auto simp: isCacheValid_Fin of_int_diff_less fifteenMinutes_def)
  have c: "writeSucceeds h st0 t0 rides profile \<and> numberToString h t0 \<noteq> [] \<and>
    toNumber h (numberToString h t0) = Fin (of_int t0) \<longrightarrow>
      isCacheValid h (setCacheData h st0 t0 rides profile) t0 \<and>
      (\<forall>t. isCacheValid h (setCacheData h st0 t0 rides profile) t \<longleftrightarrow> t - t0 < fifteenMinutes)"
  proof (intro impI, elim conjE)
    assume w: "writeSucceeds h st0 t0 rides profile"
      and s: "numberToString h t0 \<noteq> []" "toNumber h (numberToString h t0) = Fin (of_int t0)"
    let ?st = "setCacheData h st0 t0 rides profile"
    have l: "?st CACHE_KEYS_LAST_FETCH = Some (numberToString h t0)"
      by (simp add: setCacheData_succeeds [OF w])
    have "isCacheValid h ?st t = (t - t0 < fifteenMinutes)" for t
      using l s by (simp add: isCacheValid_Fin [where s = "numberToString h t0"]
          of_int_diff_less fifteenMinutes_def)
    then show "isCacheValid h ?st t0 \<and> (\<forall>t. isCacheValid h ?st t \<longleftrightarrow> t - t0 < fifteenMinutes)"
      by (simp add: fifteenMinutes_def)
  qed
  from a b c show ?thesis by blast
qed

theorem isCacheValid_ttl_witness:
  "freshStorage CACHE_KEYS_LAST_FETCH = Some ''1741597200000'' \<and>
   toNumber exampleHost ''1741597200000'' = Fin (of_int nowNine) \<and>
   isCacheValid exampleHost freshStorage (nowNine + 899999) \<and>
   \<not> isCacheValid exampleHost freshStorage (nowNine + 900000) \<and>
   \<not> isCacheValid exampleHost emptyStorage nowNine \<and>
   writeSucceeds exampleHost emptyStorage nowNine (JArr []) (JObj []) \<and>
   isCacheValid exampleHost (setCacheData exampleHost emptyStorage nowNine (JArr []) (JObj [])) nowNine \<and>
   \<not> isCacheValid exampleHost (setCacheData exampleHost emptyStorage nowNine (JArr []) (JObj []))
       (nowNine + 900000)"
proof -
  have stored: "freshStorage CACHE_KEYS_LAST_FETCH = Some ''1741597200000''" by code_simp
  have nonempty: "''1741597200000'' \<noteq> []" by simp
  have reads: "toNumber exampleHost ''1741597200000'' = Fin (of_int nowNine)" by code_simp
  have missing: "\<not> isCacheValid exampleHost emptyStorage nowNine" by code_simp
  have w: "writeSucceeds exampleHost emptyStorage nowNine (JArr []) (JObj [])"
    by (simp add: writeSucceeds_def exampleHost_def)
  have digits: "numberToString exampleHost nowNine = ''1741597200000''"
    by (simp add: exampleHost_def intToString_def nowNine_def digitChar_def)
  have printed: "numberToString exampleHost nowNine \<noteq> []"
    by (simp only: digits) simp
  have roundtrip: "toNumber exampleHost (numberToString exampleHost nowNine) = Fin (of_int nowNine)"
    by (simp only: digits reads)
  note inst = isCacheValid_ttl [of exampleHost freshStorage _ "''1741597200000''" nowNine
      emptyStorage nowNine "JArr []" "JObj []"]
  have v: "isCacheValid exampleHost freshStorage t = (t - nowNine < fifteenMinutes)" for t
    using inst [of t] stored nonempty reads by blast
  have v': "isCacheValid exampleHost (setCacheData exampleHost emptyStorage nowNine (JArr []) (JObj [])) t
      = (t - nowNine < fifteenMinutes)" for t
    using inst [of t] w printed roundtrip by blast
  have "isCacheValid exampleHost freshStorage (nowNine + 899999)"
    "\<not> isCacheValid exampleHost freshStorage (nowNine + 900000)"
    "isCacheValid exampleHost (setCacheData exampleHost emptyStorage nowNine (JArr []) (JObj [])) nowNine"
    "\<not> isCacheValid exampleHost (setCacheData exampleHost emptyStorage nowNine (JArr []) (JObj []))
       (nowNine + 900000)"
    by (simp_all add: v v' fifteenMinutes_def)
  with stored reads missing w show ?thesis by blast
qed


text \<open>
  Claim C6 (cache read on corruption). \<^verbatim>\<open>getCachedData\<close> returns a plain pair and cannot
  throw. When both keys hold text that parses, it returns the two parsed values; when
  both keys are missing it returns \<^verbatim>\<open>null\<close> twice; when the text under one of the keys
  does not parse it returns \<^verbatim>\<open>null\<close> twice as well, the same result as for a miss. After
  a write that succeeded, on a host whose \<^verbatim>\<open>JSON.parse\<close> reads back what its
  \<^verbatim>\<open>JSON.stringify\<close> wrote for the two values, it returns the snapshot that was written.
\<close>

theorem getCachedData_read:
  "(st CACHE_KEYS_RIDES = Some sr \<and> st CACHE_KEYS_PROFILE = Some sp \<and>
    jsonParse h sr = Some r \<and> jsonParse h sp = Some p \<longrightarrow> getCachedData h st = (r, p)) \<and>
   (st1 CACHE_KEYS_RIDES = None \<and> st1 CACHE_KEYS_PROFILE = None \<longrightarrow>
      getCachedData h st1 = (JNull, JNull)) \<and>
   ((st2 CACHE_KEYS_RIDES = Some s2 \<and> jsonParse h s2 = None) \<or>
    (st2 CACHE_KEYS_PROFILE = Some s2 \<and> jsonParse h s2 = None) \<longrightarrow>
      getCachedData h st2 = (JNull, JNull)) \<and>
   (writeSucceeds h st0 now rides profile \<and>
    jsonParse h (jsonStringify h rides) = Some rides \<and>
    jsonParse h (jsonStringify h profile) = Some profile \<longrightarrow>
      getCachedData h (setCacheData h st0 now rides profile) = (rides, profile))"
proof -
  have a: "st CACHE_KEYS_RIDES = Some sr \<and> st CACHE_KEYS_PROFILE = Some sp \<and>
    jsonParse h sr = Some r \<and> jsonParse h sp = Some p \<longrightarrow> getCachedData h st = (r, p)"
    by (simp add: getCachedData_def getItem_def jsonParseItem_def)
  have b: "st1 CACHE_KEYS_RIDES = None \<and> st1 CACHE_KEYS_PROFILE = None \<longrightarrow>
      getCachedData h st1 = (JNull, JNull)"
    by (simp add: getCachedData_def getItem_def jsonParseItem_def)
  have c: "(st2 CACHE_KEYS_RIDES = Some s2 \<and> jsonParse h s2 = None) \<or>
    (st2 CACHE_KEYS_PROFILE = Some s2 \<and> jsonParse h s2 = None) \<longrightarrow>
      getCachedData h st2 = (JNull, JNull)"
    by (auto simp: getCachedData_def getItem_def jsonParseItem_def split: sum.splits option.splits)
  have d: "writeSucceeds h st0 now rides profile \<and>
    jsonParse h (jsonStringify h rides) = Some rides \<and>
    jsonParse h (jsonStringify h profile) = Some profile \<longrightarrow>
      getCachedData h (setCacheData h st0 now rides profile) = (rides, profile)"
    by (simp add: setCacheData_succeeds getCachedData_def getItem_def jsonParseItem_def
        cache_keys_distinct)
  from a b c d show ?thesis by blast
qed

theorem getCachedData_read_witness:
  "freshStorage CACHE_KEYS_RIDES = Some ''[]'' \<and> freshStorage CACHE_KEYS_PROFILE = Some ''{}'' \<and>
   jsonParse exampleHost ''[]'' = Some (JArr []) \<and> jsonParse exampleHost ''{}'' = Some (JObj []) \<and>
   getCachedData exampleHost freshStorage = (JArr [], JObj []) \<and>
   emptyStorage CACHE_KEYS_RIDES = None \<and> emptyStorage CACHE_KEYS_PROFILE = None \<and>
   getCachedData exampleHost emptyStorage = (JNull, JNull) \<and>
   corruptStorage CACHE_KEYS_RIDES = Some ''<html>'' \<and> jsonParse exampleHost ''<html>'' = None \<and>
   getCachedData exampleHost corruptStorage = (JNull, JNull) \<and>
   writeSucceeds exampleHost emptyStorage nowNine (JArr []) (JObj []) \<and>
   getCachedData exampleHost (setCacheData exampleHost emptyStorage nowNine (JArr []) (JObj []))
     = (JArr [], JObj [])"
proof -
  have fresh: "freshStorage CACHE_KEYS_RIDES = Some ''[]'' \<and>
      freshStorage CACHE_KEYS_PROFILE = Some ''{}'' \<and>
      jsonParse exampleHost ''[]'' = Some (JArr []) \<and> jsonParse exampleHost ''{}'' = Some (JObj [])"
    by code_simp
  have empty: "emptyStorage CACHE_KEYS_RIDES = None \<and> emptyStorage CACHE_KEYS_PROFILE = None"
    by code_simp
  have corrupt: "corruptStorage CACHE_KEYS_RIDES = Some ''<html>'' \<and>
      jsonParse exampleHost ''<html>'' = None"
    by code_simp
  have w: "writeSucceeds exampleHost emptyStorage nowNine (JArr []) (JObj [])"
    by (simp add: writeSucceeds_def exampleHost_def)
  have rt: "jsonParse exampleHost (jsonStringify exampleHost (JArr [])) = Some (JArr []) \<and>
      jsonParse exampleHost (jsonStringify exampleHost (JObj [])) = Some (JObj [])"
    by code_simp
  note inst = getCachedData_read [of freshStorage "''[]''" "''{}''" exampleHost "JArr []" "JObj []"
      emptyStorage corruptStorage "''<html>''" emptyStorage nowNine "JArr []" "JObj []"]
  from inst fresh have 1: "getCachedData exampleHost freshStorage = (JArr [], JObj [])" by blast
  from inst empty have 2: "getCachedData exampleHost emptyStorage = (JNull, JNull)" by blast
  from inst corrupt have 3: "getCachedData exampleHost corruptStorage = (JNull, JNull)" by blast
  from inst w rt have 4: "getCachedData exampleHost
      (setCacheData exampleHost emptyStorage nowNine (JArr []) (JObj [])) = (JArr [], JObj [])"
    by blast
  from fresh 1 empty 2 corrupt 3 w 4 show ?thesis by blast
qed

text \<open>
  Claim C9 (cache gate of the refresh). The refresh shows the cached rides and skips the
  backend exactly when the cache is valid and the cached rides and the cached profile
  both read back as truthy values. So it is served only when the cache is valid and
  both values are not \<^verbatim>\<open>null\<close>; and when the cache is valid but one of the two values is
  \<^verbatim>\<open>null\<close>, or the text under one of the two keys does not parse, the refresh goes on
  to the backend.
\<close>

theorem cache_gate:
  "checkCacheFirst h st now =
     (if isCacheValid h st now \<and> truthy (fst (getCachedData h st)) \<and>
         truthy (snd (getCachedData h st))
      then ServeCached (fst (getCachedData h st)) else FetchFromNetwork) \<and>
   (checkCacheFirst h st now = ServeCached r \<longrightarrow>
      isCacheValid h st now \<and> fst (getCachedData h st) \<noteq> JNull \<and>
      snd (getCachedData h st) \<noteq> JNull \<and> r = fst (getCachedData h st)) \<and>
   (isCacheValid h st1 now1 \<and>
    (fst (getCachedData h st1) = JNull \<or> snd (getCachedData h st1) = JNull) \<longrightarrow>
      checkCacheFirst h st1 now1 = FetchFromNetwork) \<and>
   (isCacheValid h st2 now2 \<and>
    ((st2 CACHE_KEYS_RIDES = Some s2 \<and> jsonParse h s2 = None) \<or>
     (st2 CACHE_KEYS_PROFILE = Some s2 \<and> jsonParse h s2 = None)) \<longrightarrow>
      checkCacheFirst h st2 now2 = FetchFromNetwork)"
proof -
  have exact: "checkCacheFirst h s t =
     (if isCacheValid h s t \<and> truthy (fst (getCachedData h s)) \<and> truthy (snd (getCachedData h s))
      then ServeCached (fst (getCachedData h s)) else FetchFromNetwork)" for s t
    by (simp add: checkCacheFirst_def split: prod.splits)
  have served: "checkCacheFirst h st now = ServeCached r \<longrightarrow>
      isCacheValid h st now \<and> fst (getCachedData h st) \<noteq> JNull \<and>
      snd (getCachedData h st) \<noteq> JNull \<and> r = fst (getCachedData h st)"
    by (auto simp: exact split: if_splits)
  have nulls: "isCacheValid h st1 now1 \<and>
    (fst (getCachedData h st1) = JNull \<or> snd (getCachedData h st1) = JNull) \<longrightarrow>
      checkCacheFirst h st1 now1 = FetchFromNetwork"
    by (auto simp: exact)
  have "(st2 CACHE_KEYS_RIDES = Some s2 \<and> jsonParse h s2 = None) \<or>
     (st2 CACHE_KEYS_PROFILE = Some s2 \<and> jsonParse h s2 = None) \<longrightarrow>
      getCachedData h st2 = (JNull, JNull)"
    by (auto simp: getCachedData_def getItem_def jsonParseItem_def split: sum.splits option.splits)
  then have corrupt: "isCacheValid h st2 now2 \<and>
    ((st2 CACHE_KEYS_RIDES = Some s2 \<and> jsonParse h s2 = None) \<or>
     (st2 CACHE_KEYS_PROFILE = Some s2 \<and> jsonParse h s2 = None)) \<longrightarrow>
      checkCacheFirst h st2 now2 = FetchFromNetwork"
    by (auto simp: exact)
  from exact [of st now] served nulls corrupt show ?thesis by blast
qed

theorem cache_gate_witness:
  "checkCacheFirst exampleHost freshStorage (nowNine + 60000) = ServeCached (JArr []) \<and>
   isCacheValid exampleHost freshStorage (nowNine + 60000) \<and>
   getCachedData exampleHost freshStorage = (JArr [], JObj []) \<and>
   isCacheValid exampleHost nullProfileStorage (nowNine + 60000) \<and>
   snd (getCachedData exampleHost nullProfileStorage) = JNull \<and>
   checkCacheFirst exampleHost nullProfileStorage (nowNine + 60000) = FetchFromNetwork \<and>
   isCacheValid exampleHost corruptStorage (nowNine + 60000) \<and>
   corruptStorage CACHE_KEYS_RIDES = Some ''<html>'' \<and> jsonParse exampleHost ''<html>'' = None \<and>
   checkCacheFirst exampleHost corruptStorage (nowNine + 60000) = FetchFromNetwork"
proof -
  have served: "checkCacheFirst exampleHost freshStorage (nowNine + 60000) = ServeCached (JArr [])"
    by code_simp
  have data: "getCachedData exampleHost freshStorage = (JArr [], JObj [])" by code_simp
  have nulls: "isCacheValid exampleHost nullProfileStorage (nowNine + 60000) \<and>
      snd (getCachedData exampleHost nullProfileStorage) = JNull"
    by code_simp
  have corrupt: "isCacheValid exampleHost corruptStorage (nowNine + 60000) \<and>
      corruptStorage CACHE_KEYS_RIDES = Some ''<html>'' \<and> jsonParse exampleHost ''<html>'' = None"
    by code_simp
  note inst = cache_gate [of exampleHost freshStorage "nowNine + 60000" "JArr []"
      nullProfileStorage "nowNine + 60000" corruptStorage "nowNine + 60000" "''<html>''"]
  from inst served have 1: "isCacheValid exampleHost freshStorage (nowNine + 60000)" by blast
  from inst nulls have 2: "checkCacheFirst exampleHost nullProfileStorage (nowNine + 60000) =
      FetchFromNetwork"
    by blast
  from inst corrupt have 3: "checkCacheFirst exampleHost corruptStorage (nowNine + 60000) =
      FetchFromNetwork"
    by blast
  from served 1 data nulls 2 corrupt 3 show ?thesis by blast
qed

text \<open>
  Claim C10 (order of the writes). \<^verbatim>\<open>setCacheData\<close> writes the rides, then the profile,
  then the timestamp, and stops at the first write that fails: the storage it leaves is
  the old one after the writes that precede the first failure. The last-fetch key is
  written only when all three writes succeed, and is left as it was otherwise; when it
  is written, or has changed, the rides key and the profile key hold the snapshot of
  that same call.
\<close>

theorem setCacheData_order:
  "setCacheData h st now rides profile =
    (let st1 = st(CACHE_KEYS_RIDES \<mapsto> jsonStringify h rides);
         st2 = st1(CACHE_KEYS_PROFILE \<mapsto> jsonStringify h profile);
         st3 = st2(CACHE_KEYS_LAST_FETCH \<mapsto> numberToString h now)
     in if \<not> quotaAllows h st CACHE_KEYS_RIDES (jsonStringify h rides) then st
        else if \<not> quotaAllows h st1 CACHE_KEYS_PROFILE (jsonStringify h profile) then st1
        else if \<not> quotaAllows h st2 CACHE_KEYS_LAST_FETCH (numberToString h now) then st2
        else st3) \<and>
   (setCacheData h st now rides profile) CACHE_KEYS_LAST_FETCH =
     (if writeSucceeds h st now rides profile then Some (numberToString h now)
      else st CACHE_KEYS_LAST_FETCH) \<and>
   (writeSucceeds h st now rides profile \<or>
    (setCacheData h st now rides profile) CACHE_KEYS_LAST_FETCH \<noteq> st CACHE_KEYS_LAST_FETCH \<longrightarrow>
      writeSucceeds h st now rides profile \<and>
      (setCacheData h st now rides profile) CACHE_KEYS_RIDES = Some (jsonStringify h rides) \<and>
      (setCacheData h st now rides profile) CACHE_KEYS_PROFILE = Some (jsonStringify h profile) \<and>
      (setCacheData h st now rides profile) CACHE_KEYS_LAST_FETCH = Some (numberToString h now))"
proof -
  have stamp: "(setCacheData h st now rides profile) CACHE_KEYS_LAST_FETCH =
     (if writeSucceeds h st now rides profile then Some (numberToString h now)
      else st CACHE_KEYS_LAST_FETCH)"
    by (simp add: setCacheData_steps writeSucceeds_def Let_def cache_keys_distinct)
  have data: "writeSucceeds h st now rides profile \<longrightarrow>
      (setCacheData h st now rides profile) CACHE_KEYS_RIDES = Some (jsonStringify h rides) \<and>
      (setCacheData h st now rides profile) CACHE_KEYS_PROFILE = Some (jsonStringify h profile)"
    by (simp add: setCacheData_succeeds cache_keys_distinct)
  have changed: "(setCacheData h st now rides profile) CACHE_KEYS_LAST_FETCH \<noteq>
      st CACHE_KEYS_LAST_FETCH \<longrightarrow> writeSucceeds h st now rides profile"
    by (simp add: stamp)
  from setCacheData_steps [of h st now rides profile] stamp data changed show ?thesis
    by (simp only:) (auto simp only: if_True)
qed

theorem setCacheData_order_witness:
  "writeSucceeds exampleHost emptyStorage nowNine (JArr []) (JObj []) \<and>
   (setCacheData exampleHost emptyStorage nowNine (JArr []) (JObj [])) CACHE_KEYS_RIDES = Some ''[]'' \<and>
   (setCacheData exampleHost emptyStorage nowNine (JArr []) (JObj [])) CACHE_KEYS_PROFILE = Some ''{}'' \<and>
   (setCacheData exampleHost emptyStorage nowNine (JArr []) (JObj [])) CACHE_KEYS_LAST_FETCH =
      Some ''1741597200000'' \<and>
   setCacheData fullHost freshStorage (nowNine + 60000) (JArr []) (JObj []) = freshStorage \<and>
   setCacheData tightHost emptyStorage nowNine (JArr []) (JObj []) =
      [CACHE_KEYS_RIDES \<mapsto> ''[]'', CACHE_KEYS_PROFILE \<mapsto> ''{}''] \<and>
   (setCacheData tightHost emptyStorage nowNine (JArr []) (JObj [])) CACHE_KEYS_LAST_FETCH = None"
proof -
  have w: "writeSucceeds exampleHost emptyStorage nowNine (JArr []) (JObj [])"
    by (simp add: writeSucceeds_def exampleHost_def)
  have digits: "numberToString exampleHost nowNine = ''1741597200000''"
    by (simp add: exampleHost_def intToString_def nowNine_def digitChar_def)
  have json: "jsonStringify exampleHost (JArr []) = ''[]''" "jsonStringify exampleHost (JObj []) = ''{}''"
    by (simp_all add: exampleHost_def exampleJsonStringify_def)
  from setCacheData_order [of exampleHost emptyStorage nowNine "JArr []" "JObj []"] w
  have written:
    "(setCacheData exampleHost emptyStorage nowNine (JArr []) (JObj [])) CACHE_KEYS_RIDES =
        Some (jsonStringify exampleHost (JArr []))"
    "(setCacheData exampleHost emptyStorage nowNine (JArr []) (JObj [])) CACHE_KEYS_PROFILE =
        Some (jsonStringify exampleHost (JObj []))"
    "(setCacheData exampleHost emptyStorage nowNine (JArr []) (JObj [])) CACHE_KEYS_LAST_FETCH =
        Some (numberToString exampleHost nowNine)"
    by blast+
  have full: "setCacheData fullHost freshStorage (nowNine + 60000) (JArr []) (JObj []) = freshStorage"
    by (simp add: setCacheData_def setItem_def fullHost_def)
  have tight: "setCacheData tightHost emptyStorage nowNine (JArr []) (JObj []) =
      [CACHE_KEYS_RIDES \<mapsto> ''[]'', CACHE_KEYS_PROFILE \<mapsto> ''{}'']"
    by (simp add: setCacheData_def setItem_def tightHost_def exampleHost_def
        exampleJsonStringify_def intToString_def nowNine_def digitChar_def emptyStorage_def)
  have unstamped: "(setCacheData tightHost emptyStorage nowNine (JArr []) (JObj []))
      CACHE_KEYS_LAST_FETCH = None"
    by (simp add: tight cache_keys_distinct)
  from w written full tight unstamped show ?thesis by (simp only: json digits)
qed

section \<open>The service worker: proofs\<close>


lemma served_alloc:
  "served (RespondWith (Some (length (objects w))), snd (alloc r w)) = Some r"
  by (simp add: served_def alloc_def)

lemma cachesMatch_storage: "cacheStorage (snd (cachesMatch u m w)) = cacheStorage w"
  by (simp add: cachesMatch_def alloc_def split: option.splits)

lemma cachesMatch_served:
  "served (RespondWith (fst (cachesMatch u m w)), snd (cachesMatch u m w)) =
    (if m = ''GET'' then cacheLookup (cacheStorage w) u else None)"
  by (auto simp: cachesMatch_def served_def alloc_def split: option.splits)

lemma cachesMatch_None:
  "fst (cachesMatch u m w) = None \<longleftrightarrow> (if m = ''GET'' then cacheLookup (cacheStorage w) u else None) = None"
  by (simp add: cachesMatch_def alloc_def split: option.splits)

lemma cachesMatch_miss: "fst (cachesMatch u m w) = None \<Longrightarrow> snd (cachesMatch u m w) = w"
  by (simp add: cachesMatch_def alloc_def split: option.splits if_splits)

text \<open>
  Claim C7 (API requests), as amended. For every same-origin request whose URL contains
  \<^verbatim>\<open>/api/\<close>: when the network answers, the page receives that answer and the caches are
  left as they were, so the answer is never stored; when the network fails, the page
  receives the cached entry that matches the request if there is one, and no response
  otherwise, and the caches are again left as they were. Hence a failed request that
  follows a successful one is answered from the caches as they were before the
  successful one, not with the answer of the successful one.
\<close>

theorem api_requests:
  assumes "sameOriginApi origin req"
  shows "served (onFetch origin (Some r) req w) = Some r \<and>
    cacheStorage (snd (onFetch origin (Some r) req w)) = cacheStorage w \<and>
    served (onFetch origin None req w) = cachedFor w req \<and>
    (fst (onFetch origin None req w) = RespondWith None \<longleftrightarrow> cachedFor w req = None) \<and>
    cacheStorage (snd (onFetch origin None req w)) = cacheStorage w \<and>
    served (onFetch origin None req (snd (onFetch origin (Some r) req w))) = cachedFor w req"
proof -
  from assms have branch: "startsWith (req_url req) origin" "includes_str (req_url req) ''/api/''"
    by (simp_all add: sameOriginApi_def)
  have ok: "onFetch origin (Some r) req w = (RespondWith (Some (length (objects w))), snd (alloc r w))" for w
    using branch by (simp add: onFetch_def alloc_def)
  have fail: "onFetch origin None req w =
      (RespondWith (fst (cachesMatch (req_url req) (req_method req) w)),
       snd (cachesMatch (req_url req) (req_method req) w))" for w
    using branch by (simp add: onFetch_def split: prod.splits)
  have 1: "served (onFetch origin (Some r) req w) = Some r"
    by (simp only: ok served_alloc)
  have 2: "cacheStorage (snd (onFetch origin (Some r) req w)) = cacheStorage w"
    by (simp add: ok alloc_def)
  have 3: "served (onFetch origin None req w) = cachedFor w req" for w
    by (simp only: fail cachesMatch_served cachedFor_def)
  have 4: "fst (onFetch origin None req w) = RespondWith None \<longleftrightarrow> cachedFor w req = None"
    by (simp add: fail cachesMatch_None cachedFor_def)
  have 5: "cacheStorage (snd (onFetch origin None req w)) = cacheStorage w"
    by (simp add: fail cachesMatch_storage)
  have "cachedFor (snd (onFetch origin (Some r) req w)) req = cachedFor w req"
    using 2 by (simp add: cachedFor_def)
  with 3 have 6: "served (onFetch origin None req (snd (onFetch origin (Some r) req w))) =
      cachedFor w req"
    by simp
  from 1 2 3 4 5 6 show ?thesis by blast
qed

theorem api_requests_witness:
  "sameOriginApi exampleOrigin apiRequest \<and>
   served (onFetch exampleOrigin (Some apiAnswer) apiRequest installedWorker) = Some apiAnswer \<and>
   cachedFor installedWorker apiRequest = None \<and>
   served (onFetch exampleOrigin None apiRequest
     (snd (onFetch exampleOrigin (Some apiAnswer) apiRequest installedWorker))) = None"
proof -
  have api: "sameOriginApi exampleOrigin apiRequest" by code_simp
  have miss: "cachedFor installedWorker apiRequest = None" by code_simp
  from api_requests [OF api, of apiAnswer installedWorker] miss show ?thesis
    using api by simp
qed

theorem api_cached_response_counterexample:
  "fst (onFetch exampleOrigin (Some apiAnswer) apiRequest installedWorker) = RespondWith (Some 0) \<and>
   onFetch exampleOrigin None apiRequest
     (snd (onFetch exampleOrigin (Some apiAnswer) apiRequest installedWorker)) =
     (RespondWith None, snd (onFetch exampleOrigin (Some apiAnswer) apiRequest installedWorker)) \<and>
   served (onFetch exampleOrigin None apiRequest
     (snd (onFetch exampleOrigin (Some apiAnswer) apiRequest installedWorker))) \<noteq> Some apiAnswer"
  by code_simp

lemma map_of_putEntry: "map_of (putEntry u r es) u' = (if u' = u then Some r else map_of es u')"
proof -
  have "map_of (filter (\<lambda>e. fst e \<noteq> u) es) u' = (if u' = u then None else map_of es u')"
    by (induction es) auto
  then show ?thesis
    by (simp add: putEntry_def map_add_def split: option.splits)
qed

lemma map_of_update_named:
  "map_of (map (\<lambda>c. if fst c = name then (fst c, g (snd c)) else c) cs) n =
    (if n = name then map_option g (map_of cs n) else map_of cs n)"
  by (induction cs) auto

lemma storedIn_cachesOpen: "storedIn (cachesOpen name w) n u = storedIn w n u"
  by (auto simp: storedIn_def cachesOpen_def map_add_def split: option.splits)

lemma map_of_cachesOpen: "map_of (cacheStorage (cachesOpen name w)) name \<noteq> None"
  by (auto simp: cachesOpen_def map_add_def split: option.splits)

lemma storedIn_cachePut:
  assumes "ref < length (objects w)" "\<not> bodyUsed (objects w ! ref)" "req_method req = ''GET''"
    and "map_of (cacheStorage w) name \<noteq> None"
  shows "storedIn (cachePut name req ref w) n u =
    (if n = name \<and> u = req_url req then Some (content (objects w ! ref)) else storedIn w n u)"
  using assms
  by (auto simp: storedIn_def cachePut_def map_of_update_named map_of_putEntry split: option.splits)

lemma objects_cachePut:
  assumes "ref < length (objects w)" "\<not> bodyUsed (objects w ! ref)" "req_method req = ''GET''"
  shows "objects (cachePut name req ref w) = (objects w)[ref := (objects w ! ref)\<lparr>bodyUsed := True\<rparr>]"
  using assms by (simp add: cachePut_def)

lemma cacheFallback_eq:
  "cacheFallback origin req w =
    (case fst (cachesMatch (req_url req) (req_method req) w) of
       Some ref \<Rightarrow> (RespondWith (Some ref), snd (cachesMatch (req_url req) (req_method req) w))
     | None \<Rightarrow>
        if req_mode req = ''navigate''
        then (RespondWith (fst (cachesMatch (origin @ ''/index.html'') ''GET'' w)),
              snd (cachesMatch (origin @ ''/index.html'') ''GET'' w))
        else (RespondWith None, w))"
proof -
  obtain f w' where m: "cachesMatch (req_url req) (req_method req) w = (f, w')"
    by (cases "cachesMatch (req_url req) (req_method req) w")
  obtain g w'' where m2: "cachesMatch (origin @ ''/index.html'') ''GET'' w' = (g, w'')"
    by (cases "cachesMatch (origin @ ''/index.html'') ''GET'' w'")
  show ?thesis
  proof (cases f)
    case None
    with m have "w' = w" using cachesMatch_miss [of "req_url req" "req_method req" w] by simp
    with None m m2 show ?thesis by (simp add: cacheFallback_def)
  next
    case (Some ref)
    with m show ?thesis by (simp add: cacheFallback_def)
  qed
qed

lemma served_nothing: "served (RespondWith None, w) = None"
  by (simp add: served_def)

lemma cacheFallback_served:
  "served (cacheFallback origin req w) =
    (case cachedFor w req of
       Some c \<Rightarrow> Some c
     | None \<Rightarrow> if req_mode req = ''navigate''
               then cacheLookup (cacheStorage w) (origin @ ''/index.html'') else None)"
proof (cases "fst (cachesMatch (req_url req) (req_method req) w)")
  case None
  then have miss: "cachedFor w req = None"
    by (simp add: cachesMatch_None cachedFor_def)
  from None show ?thesis
    by (simp add: cacheFallback_eq miss cachesMatch_served served_nothing)
next
  case (Some ref)
  then have "served (cacheFallback origin req w) =
      served (RespondWith (fst (cachesMatch (req_url req) (req_method req) w)),
              snd (cachesMatch (req_url req) (req_method req) w))"
    by (simp add: cacheFallback_eq)
  also have "\<dots> = cachedFor w req"
    by (simp only: cachesMatch_served cachedFor_def)
  finally have s: "served (cacheFallback origin req w) = cachedFor w req" .
  from Some have "cachedFor w req \<noteq> None"
    using cachesMatch_None [of "req_url req" "req_method req" w] by (simp add: cachedFor_def)
  with s show ?thesis by (auto split: option.splits)
qed

lemma cacheFallback_storage: "cacheStorage (snd (cacheFallback origin req w)) = cacheStorage w"
  by (simp add: cacheFallback_eq cachesMatch_storage split: option.splits)

lemma cacheFallback_nothing:
  "fst (cacheFallback origin req w) = RespondWith None \<longleftrightarrow> served (cacheFallback origin req w) = None"
proof (cases "fst (cachesMatch (req_url req) (req_method req) w)")
  case None
  then have eq: "cacheFallback origin req w =
      (if req_mode req = ''navigate''
       then (RespondWith (fst (cachesMatch (origin @ ''/index.html'') ''GET'' w)),
             snd (cachesMatch (origin @ ''/index.html'') ''GET'' w))
       else (RespondWith None, w))"
    by (simp add: cacheFallback_eq)
  have "(fst (cachesMatch u m w) = None) = (served (RespondWith (fst (cachesMatch u m w)),
      snd (cachesMatch u m w)) = None)" for u m
    by (simp add: cachesMatch_served cachesMatch_None)
  then show ?thesis
    unfolding eq by (simp add: served_nothing)
next
  case (Some ref)
  then have "cachedFor w req \<noteq> None"
    using cachesMatch_None [of "req_url req" "req_method req" w] by (simp add: cachedFor_def)
  then have "served (cacheFallback origin req w) \<noteq> None"
    by (auto simp: cacheFallback_served)
  with Some show ?thesis by (simp add: cacheFallback_eq)
qed

lemma objects_cachesOpen: "objects (cachesOpen name w) = objects w"
  by (simp add: cachesOpen_def)

lemma onFetch_other_success:
  assumes "sameOriginOther origin req"
  shows "onFetch origin (Some r) req w =
    (RespondWith (Some (length (objects w))),
     (let w2 = w\<lparr>objects := objects w @ [\<lparr>content = r, bodyUsed = False\<rparr>,
                                              \<lparr>content = r, bodyUsed = False\<rparr>]\<rparr>;
          w3 = cachesOpen CACHE_NAME w2
      in if req_method req = ''GET'' \<and> resp_status r = 200
         then cachePut CACHE_NAME req (length (objects w) + 1) w3 else w3))"
  using assms
  by (simp add: sameOriginOther_def onFetch_def alloc_def clone_def nth_append Let_def)

lemma onFetch_other_failure:
  assumes "sameOriginOther origin req"
  shows "onFetch origin None req w = cacheFallback origin req w"
  using assms by (simp add: sameOriginOther_def onFetch_def)

text \<open>
  Claim C8 (same-origin requests other than API requests). When the network answers,
  the page receives the answer with its body unread; a second object, the clone, has
  the same content, and it is the clone whose body is read into the cache, which happens
  exactly when the method is GET and the status is 200: then the cache named
  \<^verbatim>\<open>ride-partner-v2\<close> holds the answer under the URL of the request, and no other entry
  of any cache changes. When the network fails, the page receives the cached entry that
  matches the request if there is one; otherwise, for a navigation request, the cached
  \<^verbatim>\<open>/index.html\<close> if there is one; otherwise the handler responds with no response.
  The caches are left as they were.
\<close>

theorem other_requests:
  assumes "sameOriginOther origin req"
  shows "fst (onFetch origin (Some r) req w) = RespondWith (Some (length (objects w))) \<and>
    served (onFetch origin (Some r) req w) = Some r \<and>
    objects (snd (onFetch origin (Some r) req w)) =
      objects w @ [\<lparr>content = r, bodyUsed = False\<rparr>,
                   \<lparr>content = r, bodyUsed = (req_method req = ''GET'' \<and> resp_status r = 200)\<rparr>] \<and>
    (\<forall>name u. storedIn (snd (onFetch origin (Some r) req w)) name u =
       (if name = CACHE_NAME \<and> u = req_url req \<and> req_method req = ''GET'' \<and> resp_status r = 200
        then Some r else storedIn w name u)) \<and>
    served (onFetch origin None req w) =
      (case cachedFor w req of
         Some c \<Rightarrow> Some c
       | None \<Rightarrow> if req_mode req = ''navigate''
                 then cacheLookup (cacheStorage w) (origin @ ''/index.html'') else None) \<and>
    (fst (onFetch origin None req w) = RespondWith None \<longleftrightarrow>
       served (onFetch origin None req w) = None) \<and>
    cacheStorage (snd (onFetch origin None req w)) = cacheStorage w"
proof -
  let ?w2 = "w\<lparr>objects := objects w @ [\<lparr>content = r, bodyUsed = False\<rparr>,
      \<lparr>content = r, bodyUsed = False\<rparr>]\<rparr>"
  let ?w3 = "cachesOpen CACHE_NAME ?w2"
  let ?ref = "length (objects w) + 1"
  let ?store = "req_method req = ''GET'' \<and> resp_status r = 200"
  have objs3: "objects ?w3 = objects w @ [\<lparr>content = r, bodyUsed = False\<rparr>,
      \<lparr>content = r, bodyUsed = False\<rparr>]"
    by (simp add: objects_cachesOpen)
  have ref: "?ref < length (objects ?w3)" "\<not> bodyUsed (objects ?w3 ! ?ref)"
    "content (objects ?w3 ! ?ref) = r"
    by (simp_all add: objs3 nth_append)
  have stored3: "storedIn ?w3 name u = storedIn w name u" for name u
    by (simp add: storedIn_cachesOpen) (simp add: storedIn_def)
  have ok: "onFetch origin (Some r) req w =
      (RespondWith (Some (length (objects w))),
       if ?store then cachePut CACHE_NAME req ?ref ?w3 else ?w3)"
    using onFetch_other_success [OF assms, of r w] by (simp add: Let_def)
  have objs: "objects (snd (onFetch origin (Some r) req w)) =
      objects w @ [\<lparr>content = r, bodyUsed = False\<rparr>, \<lparr>content = r, bodyUsed = ?store\<rparr>]"
  proof (cases ?store)
    case True
    then have "objects (snd (onFetch origin (Some r) req w)) =
        (objects ?w3)[?ref := (objects ?w3 ! ?ref)\<lparr>bodyUsed := True\<rparr>]"
      using ref by (simp add: ok objects_cachePut)
    also have "\<dots> = objects w @ [\<lparr>content = r, bodyUsed = False\<rparr>, \<lparr>content = r, bodyUsed = True\<rparr>]"
      by (simp add: objs3 nth_append list_update_append)
    finally show ?thesis using True by simp
  next
    case False
    then show ?thesis by (auto simp: ok objs3)
  qed
  have 1: "fst (onFetch origin (Some r) req w) = RespondWith (Some (length (objects w)))"
    by (simp add: ok)
  have 2: "served (onFetch origin (Some r) req w) = Some r"
    by (simp add: served_def 1 objs nth_append)
  have 4: "storedIn (snd (onFetch origin (Some r) req w)) name u =
       (if name = CACHE_NAME \<and> u = req_url req \<and> ?store then Some r else storedIn w name u)"
    for name u
  proof (cases ?store)
    case True
    then have "storedIn (snd (onFetch origin (Some r) req w)) name u =
        storedIn (cachePut CACHE_NAME req ?ref ?w3) name u"
      by (simp add: ok)
    also have "\<dots> = (if name = CACHE_NAME \<and> u = req_url req then Some (content (objects ?w3 ! ?ref))
        else storedIn ?w3 name u)"
      using ref True by (intro storedIn_cachePut) (simp_all add: map_of_cachesOpen)
    finally show ?thesis using True ref stored3 by simp
  next
    case False
    then show ?thesis using stored3 by (auto simp: ok)
  qed
  have 5: "served (onFetch origin None req w) =
      (case cachedFor w req of
         Some c \<Rightarrow> Some c
       | None \<Rightarrow> if req_mode req = ''navigate''
                 then cacheLookup (cacheStorage w) (origin @ ''/index.html'') else None)"
    by (simp only: onFetch_other_failure [OF assms] cacheFallback_served)
  have 6: "fst (onFetch origin None req w) = RespondWith None \<longleftrightarrow>
       served (onFetch origin None req w) = None"
    by (simp only: onFetch_other_failure [OF assms] cacheFallback_nothing)
  have 7: "cacheStorage (snd (onFetch origin None req w)) = cacheStorage w"
    by (simp only: onFetch_other_failure [OF assms] cacheFallback_storage)
  from 1 2 objs 4 5 6 7 show ?thesis by blast
qed

theorem other_requests_witness:
  "sameOriginOther exampleOrigin scriptRequest \<and>
   served (onFetch exampleOrigin (Some scriptAnswer) scriptRequest installedWorker) =
     Some scriptAnswer \<and>
   storedIn (snd (onFetch exampleOrigin (Some scriptAnswer) scriptRequest installedWorker))
     CACHE_NAME (req_url scriptRequest) = Some scriptAnswer \<and>
   objects (snd (onFetch exampleOrigin (Some scriptAnswer) scriptRequest installedWorker)) =
     [\<lparr>content = scriptAnswer, bodyUsed = False\<rparr>, \<lparr>content = scriptAnswer, bodyUsed = True\<rparr>] \<and>
   served (onFetch exampleOrigin None scriptRequest
     (snd (onFetch exampleOrigin (Some scriptAnswer) scriptRequest installedWorker))) =
     Some scriptAnswer \<and>
   served (onFetch exampleOrigin None pageRequest installedWorker) = Some rootDocument \<and>
   onFetch exampleOrigin None imageRequest installedWorker = (RespondWith None, installedWorker)"
proof -
  have other: "sameOriginOther exampleOrigin scriptRequest" by code_simp
  have get: "req_method scriptRequest = ''GET'' \<and> resp_status scriptAnswer = 200" by code_simp
  have empty: "objects installedWorker = []" by code_simp
  note inst = other_requests [OF other, of scriptAnswer installedWorker]
  from inst have 1: "served (onFetch exampleOrigin (Some scriptAnswer) scriptRequest installedWorker)
      = Some scriptAnswer"
    by blast
  from inst get have 2: "storedIn
      (snd (onFetch exampleOrigin (Some scriptAnswer) scriptRequest installedWorker))
      CACHE_NAME (req_url scriptRequest) = Some scriptAnswer"
    by simp
  from inst get empty have 3: "objects
      (snd (onFetch exampleOrigin (Some scriptAnswer) scriptRequest installedWorker)) =
      [\<lparr>content = scriptAnswer, bodyUsed = False\<rparr>, \<lparr>content = scriptAnswer, bodyUsed = True\<rparr>]"
    by simp
  have 4: "served (onFetch exampleOrigin None scriptRequest
      (snd (onFetch exampleOrigin (Some scriptAnswer) scriptRequest installedWorker))) =
      Some scriptAnswer"
    by code_simp
  have 5: "served (onFetch exampleOrigin None pageRequest installedWorker) = Some rootDocument"
    by code_simp
  have 6: "onFetch exampleOrigin None imageRequest installedWorker =
      (RespondWith None, installedWorker)"
    by code_simp
  from other 1 2 3 4 5 6 show ?thesis by blast
qed

end
